theory Spec2Isabelle
  imports Main
begin

section \<open>The regular-expression library used by the proxy\<close>

text \<open>
  The proxy (\<^verbatim>\<open>main.go\<close>) calls three operations of Go's \<^verbatim>\<open>regexp\<close> package:
  \<^verbatim>\<open>regexp.Compile\<close>, \<^verbatim>\<open>(*Regexp).MatchString\<close> and \<^verbatim>\<open>(*Regexp).ReplaceAllString\<close>.
  The package is not part of the repository. A compiled pattern is therefore a parameter
  of the development: a record holding the number of capture groups, their names, and the
  matcher of the pattern at one start position. Everything the package builds on top of
  the matcher (the leftmost search, the replacement loop, the expansion of a template) is
  written out below after the package's own functions \<^verbatim>\<open>doExecute\<close>, \<^verbatim>\<open>replaceAll\<close>,
  \<^verbatim>\<open>expand\<close> and \<^verbatim>\<open>extract\<close>.

  Strings are byte strings, as in Go. A match is the list of the index pairs
  \<open>(start, end)\<close> of the groups, group 0 (the whole match) first, with \<open>(-1, -1)\<close> for a
  group that did not take part. Go keeps the same numbers in one flat array
  \<^verbatim>\<open>[s0, e0, s1, e1, ...]\<close>, so its \<^verbatim>\<open>match[2*k]\<close> is \<open>fst (match ! k)\<close>, its
  \<^verbatim>\<open>2*k+1 < len(match)\<close> is \<open>k < length match\<close>, and a capture count is halved.
\<close>

type_synonym submatch = "(int \<times> int) list"

record regexp =
  numSubexp :: nat
  subexpNames :: "string list"
  matchAt :: "string \<Rightarrow> nat \<Rightarrow> (nat \<times> submatch) option"

text \<open>
  \<open>matchAt re src p = Some (n, caps)\<close>: the match the pattern prefers among those starting
  exactly at byte offset \<open>p\<close> of \<open>src\<close> has length \<open>n\<close>, and \<open>caps\<close> holds the index pairs
  of groups \<open>1, 2, ...\<close>. \<open>None\<close>: no match starts at \<open>p\<close>. The matcher sees the
  whole of \<open>src\<close>, so assertions such as \<^verbatim>\<open>^\<close> and \<^verbatim>\<open>$\<close> are expressible.
\<close>

text \<open>\<^verbatim>\<open>src[i:j]\<close> on indices kept as Go's \<^verbatim>\<open>int\<close>.\<close>

definition slice :: "string \<Rightarrow> int \<Rightarrow> int \<Rightarrow> string" where
  "slice src i j = take (nat j - nat i) (drop (nat i) src)"

text \<open>
  \<^verbatim>\<open>doExecute\<close> searches for the leftmost match that starts at or after \<open>pos\<close> and
  returns its first \<open>ncap\<close> index pairs; \<open>None\<close> stands for the \<^verbatim>\<open>nil\<close> slice.
\<close>

definition doExecute :: "regexp \<Rightarrow> string \<Rightarrow> nat \<Rightarrow> nat \<Rightarrow> submatch option" where
  "doExecute re src pos ncap =
     (case find (\<lambda>p. matchAt re src p \<noteq> None) [pos ..< Suc (length src)] of
        None \<Rightarrow> None
      | Some p \<Rightarrow>
          (case matchAt re src p of
             None \<Rightarrow> None
           | Some (n, caps) \<Rightarrow> Some (take ncap ((int p, int (p + n)) # caps))))"

definition MatchString :: "regexp \<Rightarrow> string \<Rightarrow> bool" where
  "MatchString re s = (doExecute re s 0 0 \<noteq> None)"

text \<open>
  \<^verbatim>\<open>utf8.DecodeRuneInString\<close>: the first rune of the string and the number of bytes of
  its encoding; \<^verbatim>\<open>RuneError\<close> with width 0 on the empty string, and with width 1 on
  bytes that do not start a well-formed UTF-8 sequence. The first byte gives the length
  \<^verbatim>\<open>sz\<close> of the sequence and the range \<^verbatim>\<open>accept\<close> of the second byte. The masks and
  shifts of the source are written with \<open>mod\<close> and multiplication.
\<close>

definition byte :: "char \<Rightarrow> nat" where
  "byte c = of_char c"

definition between :: "nat \<Rightarrow> nat \<Rightarrow> char \<Rightarrow> bool" where
  "between lo hi c = (lo \<le> byte c \<and> byte c \<le> hi)"

definition RuneError :: nat where
  "RuneError = 0xFFFD"

fun DecodeRuneInString :: "string \<Rightarrow> nat \<times> nat" where
  "DecodeRuneInString [] = (RuneError, 0)"
| "DecodeRuneInString (c # cs) =
     (let s0 = byte c in
      if s0 < 0x80 then (s0, 1)
      else if s0 < 0xC2 \<or> 0xF4 < s0 then (RuneError, 1)
      else
        let sz = (if s0 < 0xE0 then 2 else if s0 < 0xF0 then 3 else 4 :: nat);
            lo = (if s0 = 0xE0 then 0xA0 else if s0 = 0xF0 then 0x90 else 0x80 :: nat);
            hi = (if s0 = 0xED then 0x9F else if s0 = 0xF4 then 0x8F else 0xBF :: nat)
        in if Suc (length cs) < sz then (RuneError, 1)
           else
             let s1 = byte (cs ! 0) in
             if s1 < lo \<or> hi < s1 then (RuneError, 1)
             else if sz \<le> 2 then ((s0 mod 0x20) * 0x40 + s1 mod 0x40, 2)
             else
               let s2 = byte (cs ! 1) in
               if s2 < 0x80 \<or> 0xBF < s2 then (RuneError, 1)
               else if sz \<le> 3
               then ((s0 mod 0x10) * 0x1000 + (s1 mod 0x40) * 0x40 + s2 mod 0x40, 3)
               else
                 let s3 = byte (cs ! 2) in
                 if s3 < 0x80 \<or> 0xBF < s3 then (RuneError, 1)
                 else ((s0 mod 8) * 0x40000 + (s1 mod 0x40) * 0x1000 + (s2 mod 0x40) * 0x40
                       + s3 mod 0x40, 4))"

text \<open>
  \<^verbatim>\<open>unicode.IsLetter\<close> and \<^verbatim>\<open>unicode.IsDigit\<close>. Up to \<^verbatim>\<open>MaxLatin1\<close> the answer is
  written out (the letters of Latin-1 are \<^verbatim>\<open>A-Z\<close>, \<^verbatim>\<open>a-z\<close>, U+00AA, U+00B5, U+00BA,
  U+00C0 to U+00D6, U+00D8 to U+00F6 and U+00F8 to U+00FF; its digits are \<^verbatim>\<open>0-9\<close>);
  above, it is membership in the range tables \<^verbatim>\<open>unicode.Letter\<close> and
  \<^verbatim>\<open>unicode.Digit\<close>, which are parameters.
\<close>

record unicode =
  unicode_Letter :: "nat \<Rightarrow> bool"
  unicode_Digit :: "nat \<Rightarrow> bool"

definition MaxLatin1 :: nat where
  "MaxLatin1 = 0xFF"

definition IsLetter :: "unicode \<Rightarrow> nat \<Rightarrow> bool" where
  "IsLetter u r =
     (if r \<le> MaxLatin1
      then (0x41 \<le> r \<and> r \<le> 0x5A) \<or> (0x61 \<le> r \<and> r \<le> 0x7A)
           \<or> r = 0xAA \<or> r = 0xB5 \<or> r = 0xBA
           \<or> (0xC0 \<le> r \<and> r \<le> 0xD6) \<or> (0xD8 \<le> r \<and> r \<le> 0xF6) \<or> 0xF8 \<le> r
      else unicode_Letter u r)"

definition IsDigit :: "unicode \<Rightarrow> nat \<Rightarrow> bool" where
  "IsDigit u r = (if r \<le> MaxLatin1 then 0x30 \<le> r \<and> r \<le> 0x39 else unicode_Digit u r)"

lemma DecodeRuneInString_pos: "xs \<noteq> [] \<Longrightarrow> 0 < snd (DecodeRuneInString xs)"
  by (cases xs) (simp_all add: Let_def)


subsection \<open>Template expansion\<close>

text \<open>
  \<^verbatim>\<open>extract\<close> (here \<open>extract_name\<close>) reads the name after a \<^verbatim>\<open>$\<close>: a maximal run of
  letters, digits and underscores, optionally in braces. \<open>nameLength\<close> is its loop
  \<^verbatim>\<open>for i < len(str)\<close>, which decodes one rune at a time and returns the final \<open>i\<close>.
  The name is a group number when it is all ASCII digits without a leading zero, and a
  group name otherwise (\<open>num = -1\<close>).
\<close>

function nameLength :: "unicode \<Rightarrow> string \<Rightarrow> nat" where
  "nameLength u str =
     (if str = [] then 0
      else
        case DecodeRuneInString str of
          (rune, width) \<Rightarrow>
            if \<not> IsLetter u rune \<and> \<not> IsDigit u rune \<and> rune \<noteq> 0x5F then 0
            else width + nameLength u (drop width str))"
  by pat_completeness auto
termination
proof (relation "measure (\<lambda>(u, str). length str)", goal_cases)
  case 1
  show ?case by simp
next
  case (2 u str rune width)
  then show ?case
    using DecodeRuneInString_pos [of str] by (cases "DecodeRuneInString str") auto
qed

declare nameLength.simps [simp del]

fun parseNum :: "string \<Rightarrow> int \<Rightarrow> int" where
  "parseNum [] num = num"
| "parseNum (c # cs) num =
     (if byte c < 0x30 \<or> 0x39 < byte c \<or> num \<ge> 100000000 then - 1
      else parseNum cs (num * 10 + int (byte c) - 0x30))"

definition extract_name :: "unicode \<Rightarrow> string \<Rightarrow> (string \<times> int \<times> string) option" where
  "extract_name u str0 =
     (if str0 = [] then None
      else
        let brace = (hd str0 = CHR ''{'');
            str = (if brace then tl str0 else str0);
            i = nameLength u str;
            name = take i str
        in if i = 0 then None
           else if brace \<and> (i \<ge> length str \<or> str ! i \<noteq> CHR ''}'') then None
           else
             let num = parseNum name 0;
                 num = (if hd name = CHR ''0'' \<and> length name > 1 then - 1 else num)
             in Some (name, num, drop (if brace then i + 1 else i) str))"

text \<open>The loop of \<^verbatim>\<open>expand\<close> over \<^verbatim>\<open>re.subexpNames\<close> for a named reference.\<close>

fun expandNamed :: "string list \<Rightarrow> nat \<Rightarrow> string \<Rightarrow> string \<Rightarrow> submatch \<Rightarrow> string" where
  "expandNamed [] i name src match = []"
| "expandNamed (namei # names) i name src match =
     (if name = namei \<and> i < length match \<and> fst (match ! i) \<ge> 0
      then slice src (fst (match ! i)) (snd (match ! i))
      else expandNamed names (Suc i) name src match)"

lemma extract_rest_length:
  "extract_name u t = Some (name, num, rest) \<Longrightarrow> length rest \<le> length t"
  by (auto simp: extract_name_def Let_def split: if_splits)

lemma after_dollar_shorter:
  "CHR ''$'' \<in> set t \<Longrightarrow> length (tl (dropWhile (\<lambda>c. c \<noteq> CHR ''$'') t)) < length t"
proof -
  assume "CHR ''$'' \<in> set t"
  then have "dropWhile (\<lambda>c. c \<noteq> CHR ''$'') t \<noteq> []" by simp
  moreover have "length (dropWhile (\<lambda>c. c \<noteq> CHR ''$'') t) \<le> length t"
    by (rule length_dropWhile_le)
  ultimately show ?thesis by (cases "dropWhile (\<lambda>c. c \<noteq> CHR ''$'') t") auto
qed

text \<open>
  \<^verbatim>\<open>expand\<close> appends the template to \<open>dst\<close>, with \<^verbatim>\<open>$$\<close> as a dollar sign, a
  reference \<^verbatim>\<open>$name\<close> or \<^verbatim>\<open>${name}\<close> as the text of that group (nothing when the
  group is out of range or did not take part), and any other \<^verbatim>\<open>$\<close> as itself.
\<close>

function expand :: "unicode \<Rightarrow> regexp \<Rightarrow> string \<Rightarrow> string \<Rightarrow> string \<Rightarrow> submatch \<Rightarrow> string" where
  "expand u re dst template src match =
     (if CHR ''$'' \<notin> set template then dst @ template
      else
        let before = takeWhile (\<lambda>c. c \<noteq> CHR ''$'') template;
            after = tl (dropWhile (\<lambda>c. c \<noteq> CHR ''$'') template);
            dst = dst @ before
        in if after \<noteq> [] \<and> hd after = CHR ''$''
           then expand u re (dst @ ''$'') (tl after) src match
           else
             (case extract_name u after of
                None \<Rightarrow> expand u re (dst @ ''$'') after src match
              | Some (name, num, rest) \<Rightarrow>
                  if num \<ge> 0 then
                    (if nat num < length match \<and> fst (match ! nat num) \<ge> 0
                     then expand u re (dst @ slice src (fst (match ! nat num))
                                                  (snd (match ! nat num))) rest src match
                     else expand u re dst rest src match)
                  else expand u re (dst @ expandNamed (subexpNames re) 0 name src match)
                         rest src match))"
  by pat_completeness auto
termination
proof (relation "measure (\<lambda>(u, re, dst, template, src, match). length template)", goal_cases)
  case 1
  show ?case by simp
next
  case (2 u re dst template src match before after dsta)
  then show ?case
    using after_dollar_shorter [of template] by (cases after) auto
next
  case (3 u re dst template src match before after dsta)
  then show ?case
    using after_dollar_shorter [of template] by auto
next
  case (4 u re dst template src match before after dsta x2 name y num rest)
  then show ?case
    using after_dollar_shorter [of template] extract_rest_length [of u after name num rest]
    by auto
next
  case (5 u re dst template src match before after dsta x2 name y num rest)
  then show ?case
    using after_dollar_shorter [of template] extract_rest_length [of u after name num rest]
    by auto
next
  case (6 u re dst template src match before after dsta x2 name y num rest)
  then show ?case
    using after_dollar_shorter [of template] extract_rest_length [of u after name num rest]
    by auto
qed

declare expand.simps [simp del]

subsection \<open>Replacement\<close>

lemma find_Some_set: "find P xs = Some x \<Longrightarrow> x \<in> set xs \<and> P x"
  by (induction xs) (auto split: if_splits)

lemma doExecute_first:
  assumes "doExecute re src pos ncap = Some ((a0, a1) # rest)"
  shows "int pos \<le> a0 \<and> a0 \<le> a1 \<and> a0 \<le> int (length src)"
proof -
  from assms obtain p n caps where
    f: "find (\<lambda>p. matchAt re src p \<noteq> None) [pos ..< Suc (length src)] = Some p"
    and m: "matchAt re src p = Some (n, caps)"
    and t: "take ncap ((int p, int (p + n)) # caps) = (a0, a1) # rest"
    by (auto simp: doExecute_def split: option.splits)
  from f have "p \<in> set [pos ..< Suc (length src)]"
    by (rule find_Some_set [THEN conjunct1])
  moreover from t have "a0 = int p" "a1 = int (p + n)"
    by (cases ncap; simp)+
  ultimately show ?thesis by auto
qed

text \<open>
  The loop of \<^verbatim>\<open>replaceAll\<close>, with its three variables \<^verbatim>\<open>lastMatchEnd\<close>,
  \<^verbatim>\<open>searchPos\<close> and \<^verbatim>\<open>buf\<close>. \<open>repl\<close> appends the replacement of one match. The
  text up to the match is copied; the replacement is inserted unless the match is empty
  and directly follows the previous one; the search resumes at the end of the match, or
  one rune further on when the match is empty.
\<close>

function replaceAll_loop ::
  "regexp \<Rightarrow> string \<Rightarrow> nat \<Rightarrow> (string \<Rightarrow> submatch \<Rightarrow> string) \<Rightarrow> int \<Rightarrow> nat \<Rightarrow> string \<Rightarrow> string"
where
  "replaceAll_loop re src nmatch repl lastMatchEnd searchPos buf =
     (if searchPos \<le> length src then
        (case doExecute re src searchPos nmatch of
           None \<Rightarrow> buf @ slice src lastMatchEnd (int (length src))
         | Some [] \<Rightarrow> buf @ slice src lastMatchEnd (int (length src))
         | Some ((a0, a1) # rest) \<Rightarrow>
             let a = (a0, a1) # rest;
                 buf = buf @ slice src lastMatchEnd a0;
                 buf = (if a1 > lastMatchEnd \<or> a0 = 0 then repl buf a else buf);
                 width = snd (DecodeRuneInString (drop searchPos src))
             in replaceAll_loop re src nmatch repl a1
                  (if int (searchPos + width) > a1 then searchPos + width
                   else if int (searchPos + 1) > a1 then searchPos + 1
                   else nat a1)
                  buf)
      else buf @ slice src lastMatchEnd (int (length src)))"
  by pat_completeness auto
termination
proof (relation "measure (\<lambda>(re, src, nmatch, repl, lastMatchEnd, searchPos, buf).
                            Suc (length src) - searchPos)", goal_cases)
  case 1
  show ?case by simp
next
  case (2 re src nmatch repl lastMatchEnd searchPos buf x2 x21 x22 a0 a1 a bufa bufb width)
  have le: "searchPos \<le> length src" by fact
  have "doExecute re src searchPos nmatch = Some ((a0, a1) # x22)"
    using 2(2-4) by simp
  then have b: "int searchPos \<le> a1"
    using doExecute_first [of re src searchPos nmatch a0 a1 x22] by simp
  have w: "width = snd (DecodeRuneInString (drop searchPos src))" by fact
  have "width = 0 \<Longrightarrow> searchPos = length src"
    using le w DecodeRuneInString_pos [of "drop searchPos src"] by (cases "searchPos < length src") simp_all
  with b le
  have "searchPos < (if int (searchPos + width) > a1 then searchPos + width
                   else if int (searchPos + 1) > a1 then searchPos + 1
                   else nat a1)"
    by (cases "width = 0") (simp_all, linarith+)
  with le show ?case by simp
qed

declare replaceAll_loop.simps [simp del]

definition replaceAll ::
  "regexp \<Rightarrow> string \<Rightarrow> nat \<Rightarrow> (string \<Rightarrow> submatch \<Rightarrow> string) \<Rightarrow> string" where
  "replaceAll re src nmatch repl =
     replaceAll_loop re src (if nmatch > numSubexp re + 1 then numSubexp re + 1 else nmatch)
       repl 0 0 []"

definition ReplaceAllString :: "unicode \<Rightarrow> regexp \<Rightarrow> string \<Rightarrow> string \<Rightarrow> string" where
  "ReplaceAllString u re src repl =
     (let n = (if CHR ''$'' \<in> set repl then numSubexp re + 1 else 1)
      in replaceAll re src n (\<lambda>dst match. expand u re dst repl src match))"

section \<open>The URL and HTTP libraries used by the proxy\<close>

text \<open>
  Go's \<^verbatim>\<open>net/url\<close> and \<^verbatim>\<open>net/http\<close> are not part of the repository either. Their
  data is modelled as records, their parsers and escapers are parameters (the record
  \<open>stdlib\<close>, which also holds the pattern compiler and the Unicode tables), and the functions the claims depend on (\<^verbatim>\<open>URL.String\<close>, the header
  operations, \<^verbatim>\<open>http.NewRequest\<close>, \<^verbatim>\<open>http.Error\<close>) are written out after the
  library. An \<^verbatim>\<open>error\<close> is its message.
\<close>

type_synonym error = string

record URL =
  Scheme :: string
  Opaque :: string
  User :: "string option"
  Host :: string
  Path :: string
  RawPath :: string
  OmitHost :: bool
  ForceQuery :: bool
  RawQuery :: string
  Fragment :: string
  RawFragment :: string

text \<open>The zero value \<^verbatim>\<open>url.URL{}\<close>; \<open>User\<close> holds the printed user information.\<close>

definition zeroURL :: URL where
  "zeroURL = \<lparr> Scheme = [], Opaque = [], User = None, Host = [], Path = [], RawPath = [],
               OmitHost = False, ForceQuery = False, RawQuery = [], Fragment = [],
               RawFragment = [] \<rparr>"

record stdlib =
  unicode_tables :: unicode
  regexp_Compile :: "string \<Rightarrow> error + regexp"
  url_Parse :: "string \<Rightarrow> error + URL"
  url_EscapedPath :: "URL \<Rightarrow> string"
  url_EscapedFragment :: "URL \<Rightarrow> string"
  url_escapeHost :: "string \<Rightarrow> string"

text \<open>\<^verbatim>\<open>(*URL).String\<close>, with \<open>buf\<close> the string builder.\<close>

definition URL_String :: "stdlib \<Rightarrow> URL \<Rightarrow> string" where
  "URL_String lib u =
     (let buf = (if Scheme u \<noteq> [] then Scheme u @ '':'' else []);
          buf =
            (if Opaque u \<noteq> [] then buf @ Opaque u
             else
               let buf =
                     (if Scheme u \<noteq> [] \<or> Host u \<noteq> [] \<or> User u \<noteq> None then
                        (if OmitHost u \<and> Host u = [] \<and> User u = None then buf
                         else
                           let buf = (if Host u \<noteq> [] \<or> Path u \<noteq> [] \<or> User u \<noteq> None
                                      then buf @ ''//'' else buf);
                               buf = (case User u of None \<Rightarrow> buf | Some ui \<Rightarrow> buf @ ui @ ''@'')
                           in if Host u \<noteq> [] then buf @ url_escapeHost lib (Host u) else buf)
                      else buf);
                   path = url_EscapedPath lib u;
                   buf = (if path \<noteq> [] \<and> hd path \<noteq> CHR ''/'' \<and> Host u \<noteq> []
                          then buf @ ''/'' else buf);
                   buf = (if buf = [] \<and> CHR '':'' \<in> set (takeWhile (\<lambda>c. c \<noteq> CHR ''/'') path)
                          then buf @ ''./'' else buf)
               in buf @ path);
          buf = (if ForceQuery u \<or> RawQuery u \<noteq> [] then buf @ ''?'' @ RawQuery u else buf);
          buf = (if Fragment u \<noteq> [] then buf @ ''#'' @ url_EscapedFragment lib u else buf)
      in buf)"

subsection \<open>Headers\<close>

text \<open>
  \<^verbatim>\<open>http.Header\<close> is a map from names to lists of values. It is kept as an association
  list with one entry per name, whose order is the order in which a \<^verbatim>\<open>range\<close> loop
  visits the map (Go leaves that order open; every order is a list). \<^verbatim>\<open>Add\<close> and
  \<^verbatim>\<open>Set\<close> store under the canonical form of the name.
\<close>

type_synonym Header = "(string \<times> string list) list"

definition isTokenByte :: "char \<Rightarrow> bool" where
  "isTokenByte c =
     (between 0x30 0x39 c \<or> between 0x41 0x5A c \<or> between 0x61 0x7A c
      \<or> c \<in> set ''!#$%&*+-.^_`|~'' \<or> byte c = 0x27)"

fun canonicalize :: "bool \<Rightarrow> string \<Rightarrow> string" where
  "canonicalize upper [] = []"
| "canonicalize upper (c # cs) =
     (let c' = (if upper \<and> between 0x61 0x7A c then char_of (byte c - 0x20)
                else if \<not> upper \<and> between 0x41 0x5A c then char_of (byte c + 0x20)
                else c)
      in c' # canonicalize (c' = CHR ''-'') cs)"

definition CanonicalMIMEHeaderKey :: "string \<Rightarrow> string" where
  "CanonicalMIMEHeaderKey s = (if list_all isTokenByte s then canonicalize True s else s)"

definition header_values :: "Header \<Rightarrow> string \<Rightarrow> string list" where
  "header_values h key = (case map_of h key of None \<Rightarrow> [] | Some vs \<Rightarrow> vs)"

fun header_store :: "string \<Rightarrow> string list \<Rightarrow> Header \<Rightarrow> Header" where
  "header_store key vs [] = [(key, vs)]"
| "header_store key vs ((k, old) # h) =
     (if k = key then (key, vs) # h else (k, old) # header_store key vs h)"

definition Header_Add :: "Header \<Rightarrow> string \<Rightarrow> string \<Rightarrow> Header" where
  "Header_Add h key v =
     (let key = CanonicalMIMEHeaderKey key in header_store key (header_values h key @ [v]) h)"

definition Header_Set :: "Header \<Rightarrow> string \<Rightarrow> string \<Rightarrow> Header" where
  "Header_Set h key v = header_store (CanonicalMIMEHeaderKey key) [v] h"

text \<open>
  The two nested loops that copy headers,
  \<^verbatim>\<open>for name, values := range src { for _, value := range values { dst.Add(name, value) } }\<close>.
\<close>

fun addValues :: "string \<Rightarrow> string list \<Rightarrow> Header \<Rightarrow> Header" where
  "addValues name [] dst = dst"
| "addValues name (v # values) dst = addValues name values (Header_Add dst name v)"

fun copyHeader :: "Header \<Rightarrow> Header \<Rightarrow> Header" where
  "copyHeader [] dst = dst"
| "copyHeader ((name, values) # src) dst = copyHeader src (addValues name values dst)"

subsection \<open>Requests, responses and the client\<close>

text \<open>
  A body is the bytes it would yield; \<open>None\<close> is the \<^verbatim>\<open>nil\<close> body. A response body can
  be closed, after which reading it yields nothing.
\<close>

record Request =
  Method :: string
  RequestURL :: URL
  RequestHeader :: Header
  Body :: "string option"
  RequestHost :: string
  RemoteAddr :: string

record Response =
  StatusCode :: nat
  ResponseHeader :: Header
  ResponseBody :: string
  closed :: bool

record ResponseWriter =
  wHeader :: Header
  wStatus :: "nat option"
  wBody :: string

definition StatusNotFound :: nat where "StatusNotFound = 404"
definition StatusInternalServerError :: nat where "StatusInternalServerError = 500"
definition StatusBadGateway :: nat where "StatusBadGateway = 502"

text \<open>\<^verbatim>\<open>WriteHeader\<close> takes effect once; \<^verbatim>\<open>http.Error\<close> replies in plain text.\<close>

definition WriteHeader :: "ResponseWriter \<Rightarrow> nat \<Rightarrow> ResponseWriter" where
  "WriteHeader w code = (if wStatus w = None then w\<lparr> wStatus := Some code \<rparr> else w)"

definition Write :: "ResponseWriter \<Rightarrow> string \<Rightarrow> ResponseWriter" where
  "Write w bs = (let w = WriteHeader w 200 in w\<lparr> wBody := wBody w @ bs \<rparr>)"

definition http_Error :: "ResponseWriter \<Rightarrow> string \<Rightarrow> nat \<Rightarrow> ResponseWriter" where
  "http_Error w err code =
     (let h = Header_Set (wHeader w) ''Content-Type'' ''text/plain; charset=utf-8'';
          h = Header_Set h ''X-Content-Type-Options'' ''nosniff'';
          w = WriteHeader (w\<lparr> wHeader := h \<rparr>) code
      in Write w (err @ [CHR 0x0A]))"

definition io_Copy :: "ResponseWriter \<Rightarrow> Response \<Rightarrow> ResponseWriter" where
  "io_Copy w resp = (if closed resp then w else Write w (ResponseBody resp))"

definition Close :: "Response \<Rightarrow> Response" where
  "Close resp = resp\<lparr> closed := True \<rparr>"

text \<open>
  \<^verbatim>\<open>http.NewRequest\<close>: an empty method means GET, the method must be a token, the URL
  must parse, and an empty port is dropped from the host. The new request has no headers.
\<close>

definition removeEmptyPort :: "string \<Rightarrow> string" where
  "removeEmptyPort host = (if host \<noteq> [] \<and> last host = CHR '':'' then butlast host else host)"

definition NewRequest :: "stdlib \<Rightarrow> string \<Rightarrow> string \<Rightarrow> string option \<Rightarrow> error + Request" where
  "NewRequest lib method url body =
     (let method = (if method = [] then ''GET'' else method) in
      if \<not> list_all isTokenByte method then Inl (''net/http: invalid method '' @ method)
      else
        (case url_Parse lib url of
           Inl err \<Rightarrow> Inl err
         | Inr u \<Rightarrow>
             let u = u\<lparr> Host := removeEmptyPort (Host u) \<rparr>
             in Inr \<lparr> Method = method, RequestURL = u, RequestHeader = [], Body = body,
                      RequestHost = Host u, RemoteAddr = [] \<rparr>))"

text \<open>
  The client and the network. \<^verbatim>\<open>client.Do\<close> depends on the client's settings, the
  request and the state of the world, which it may change; it is a parameter. The state
  carries the list of the requests sent so far, each with its outcome, so that what the
  proxy sends, and in which order, can be stated.
\<close>

record Client =
  Timeout :: nat
  CheckRedirect :: "error option"

definition ErrUseLastResponse :: error where
  "ErrUseLastResponse = ''net/http: use last response''"

type_synonym 'w transport = "Client \<Rightarrow> Request \<Rightarrow> 'w \<Rightarrow> (error + Response) \<times> 'w"

record 'w net =
  world :: 'w
  calls :: "(Request \<times> (error + Response)) list"

definition client_Do ::
  "'w transport \<Rightarrow> Client \<Rightarrow> Request \<Rightarrow> 'w net \<Rightarrow> (error + Response) \<times> 'w net" where
  "client_Do Do c req st =
     (case Do c req (world st) of
        (res, w') \<Rightarrow> (res, \<lparr> world = w', calls = calls st @ [(req, res)] \<rparr>))"

text \<open>Writing a response back: headers, status, body (the end of every \<^verbatim>\<open>ServeHTTP\<close>).\<close>

definition writeResponse :: "ResponseWriter \<Rightarrow> Response \<Rightarrow> ResponseWriter" where
  "writeResponse w resp =
     (let w = w\<lparr> wHeader := copyHeader (ResponseHeader resp) (wHeader w) \<rparr>;
          w = WriteHeader w (StatusCode resp)
      in io_Copy w resp)"

text \<open>The headers of the outbound request: a copy of the inbound ones, then the address.\<close>

definition forwardHeaders :: "Request \<Rightarrow> Request \<Rightarrow> Request" where
  "forwardHeaders r proxyReq =
     (let proxyReq = proxyReq\<lparr> RequestHeader := copyHeader (RequestHeader r) (RequestHeader proxyReq) \<rparr>
      in if RemoteAddr r \<noteq> []
         then proxyReq\<lparr> RequestHeader := Header_Set (RequestHeader proxyReq) ''X-Forwarded-For'' (RemoteAddr r) \<rparr>
         else proxyReq)"

section \<open>The proxy with path mappings (\<^verbatim>\<open>main.go\<close>, lines 1 to 266)\<close>

record PathMapping =
  From :: string
  To :: string

record compiledMapping =
  regex :: regexp
  to :: string

record Proxy =
  client :: Client
  defaultHost :: string
  compiledMappings :: "compiledMapping list"
  followRedirects :: bool

text \<open>
  \<^verbatim>\<open>NewProxy\<close>: the loop compiles the patterns in order and returns at the first
  failure; the client follows redirects only when asked to.
\<close>

fun compileMappings ::
  "stdlib \<Rightarrow> PathMapping list \<Rightarrow> compiledMapping list \<Rightarrow> error + compiledMapping list" where
  "compileMappings lib [] compiled = Inr compiled"
| "compileMappings lib (mapping # rest) compiled =
     (case regexp_Compile lib (From mapping) of
        Inl err \<Rightarrow> Inl (''invalid regex pattern '' @ [CHR 0x27] @ From mapping @ [CHR 0x27] @ '': '' @ err)
      | Inr re \<Rightarrow>
          compileMappings lib rest (compiled @ [\<lparr> regex = re, to = To mapping \<rparr>]))"

definition NewProxy :: "stdlib \<Rightarrow> string \<Rightarrow> PathMapping list \<Rightarrow> bool \<Rightarrow> error + Proxy" where
  "NewProxy lib host mappings follow =
     (case compileMappings lib mappings [] of
        Inl err \<Rightarrow> Inl err
      | Inr compiled \<Rightarrow>
          let c = \<lparr> Timeout = 30, CheckRedirect = None \<rparr>;
              c = (if \<not> follow then c\<lparr> CheckRedirect := Some ErrUseLastResponse \<rparr> else c)
          in Inr \<lparr> client = c, defaultHost = host, compiledMappings = compiled,
                   followRedirects = follow \<rparr>)"

text \<open>\<^verbatim>\<open>findMapping\<close>: the first mapping, in order, whose pattern matches decides.\<close>

fun findMapping_loop :: "unicode \<Rightarrow> compiledMapping list \<Rightarrow> string \<Rightarrow> string \<times> bool" where
  "findMapping_loop u [] path = ([], False)"
| "findMapping_loop u (mapping # rest) path =
     (if MatchString (regex mapping) path
      then (let result = ReplaceAllString u (regex mapping) path (to mapping)
            in (result, True))
      else findMapping_loop u rest path)"

definition findMapping :: "stdlib \<Rightarrow> Proxy \<Rightarrow> string \<Rightarrow> string \<times> bool" where
  "findMapping lib p path = findMapping_loop (unicode_tables lib) (compiledMappings p) path"

definition buildTargetURL :: "stdlib \<Rightarrow> Proxy \<Rightarrow> Request \<Rightarrow> error + string" where
  "buildTargetURL lib p r =
     (let originalPath = Path (RequestURL r);
          originalPath = (if RawQuery (RequestURL r) \<noteq> []
                          then originalPath @ ''?'' @ RawQuery (RequestURL r) else originalPath)
      in case findMapping lib p originalPath of
           (mappedURL, True) \<Rightarrow> Inr mappedURL
         | (_, False) \<Rightarrow>
             if defaultHost p = [] then Inl ''no default host configured and no mapping matched''
             else
               (case url_Parse lib (defaultHost p) of
                  Inl err \<Rightarrow> Inl (''invalid default host: '' @ err)
                | Inr parsed \<Rightarrow>
                    let targetURL = zeroURL\<lparr> Scheme := Scheme parsed, Host := Host parsed,
                                              Path := Path (RequestURL r),
                                              RawQuery := RawQuery (RequestURL r) \<rparr>
                    in Inr (URL_String lib targetURL)))"

text \<open>\<^verbatim>\<open>ServeHTTP\<close>; the calls to the logger have no effect on the reply and are left out.\<close>

definition ServeHTTP ::
  "stdlib \<Rightarrow> 'w transport \<Rightarrow> Proxy \<Rightarrow> ResponseWriter \<Rightarrow> Request \<Rightarrow> 'w net \<Rightarrow> ResponseWriter \<times> 'w net"
where
  "ServeHTTP lib Do p w r st =
     (case buildTargetURL lib p r of
        Inl err \<Rightarrow> (http_Error w (''Failed to build target URL: '' @ err) StatusBadGateway, st)
      | Inr targetURL \<Rightarrow>
          (case NewRequest lib (Method r) targetURL (Body r) of
             Inl err \<Rightarrow>
               (http_Error w ''Failed to create proxy request'' StatusInternalServerError, st)
           | Inr proxyReq \<Rightarrow>
               (case client_Do Do (client p) (forwardHeaders r proxyReq) st of
                  (Inl err, st') \<Rightarrow>
                    (http_Error w ''Failed to reach target server'' StatusBadGateway, st')
                | (Inr resp, st') \<Rightarrow> (writeResponse w resp, st'))))"

section \<open>The proxy with mirrors (\<^verbatim>\<open>main.go\<close>, lines 567 to 739)\<close>

record MirrorProxy =
  mclient :: Client
  mirrors :: "string list"

definition NewMirrorProxy :: "string list \<Rightarrow> MirrorProxy" where
  "NewMirrorProxy ms =
     \<lparr> mclient = \<lparr> Timeout = 30, CheckRedirect = Some ErrUseLastResponse \<rparr>, mirrors = ms \<rparr>"

text \<open>\<^verbatim>\<open>tryRequest\<close> builds the outbound request with a \<^verbatim>\<open>nil\<close> body.\<close>

definition tryRequest ::
  "stdlib \<Rightarrow> 'w transport \<Rightarrow> MirrorProxy \<Rightarrow> string \<Rightarrow> Request \<Rightarrow> 'w net \<Rightarrow> (error + Response) \<times> 'w net"
where
  "tryRequest lib Do p targetURL r st =
     (case NewRequest lib (Method r) targetURL None of
        Inl err \<Rightarrow> (Inl err, st)
      | Inr proxyReq \<Rightarrow> client_Do Do (mclient p) (forwardHeaders r proxyReq) st)"

definition replaceHost :: "stdlib \<Rightarrow> string \<Rightarrow> string \<Rightarrow> error + string" where
  "replaceHost lib originalURL newHost =
     (case url_Parse lib originalURL of
        Inl err \<Rightarrow> Inl err
      | Inr parsed \<Rightarrow>
          (case url_Parse lib newHost of
             Inl err \<Rightarrow> Inl err
           | Inr mirrorParsed \<Rightarrow>
               Inr (URL_String lib (parsed\<lparr> Scheme := Scheme mirrorParsed,
                                            Host := Host mirrorParsed \<rparr>))))"

text \<open>
  The loop over the mirrors. \<open>resp\<close> is the response the handler will write: it changes
  only when a mirror answers with a status other than 404, which ends the loop.
\<close>

fun tryMirrors ::
  "stdlib \<Rightarrow> 'w transport \<Rightarrow> MirrorProxy \<Rightarrow> string \<Rightarrow> Request \<Rightarrow> string list \<Rightarrow> Response \<Rightarrow> 'w net
     \<Rightarrow> Response \<times> 'w net"
where
  "tryMirrors lib Do p targetURL r [] resp st = (resp, st)"
| "tryMirrors lib Do p targetURL r (mirror # rest) resp st =
     (case replaceHost lib targetURL mirror of
        Inl err \<Rightarrow> tryMirrors lib Do p targetURL r rest resp st
      | Inr mirrorURL \<Rightarrow>
          (case tryRequest lib Do p mirrorURL r st of
             (Inl err, st') \<Rightarrow> tryMirrors lib Do p targetURL r rest resp st'
           | (Inr mirrorResp, st') \<Rightarrow>
               if StatusCode mirrorResp \<noteq> StatusNotFound then (mirrorResp, st')
               else tryMirrors lib Do p targetURL r rest resp st'))"

definition mirrorTargetURL :: "stdlib \<Rightarrow> Request \<Rightarrow> string" where
  "mirrorTargetURL lib r =
     (if Scheme (RequestURL r) = [] then
        (let targetURL = ''http://'' @ RequestHost r @ Path (RequestURL r)
         in if RawQuery (RequestURL r) \<noteq> [] then targetURL @ ''?'' @ RawQuery (RequestURL r)
            else targetURL)
      else URL_String lib (RequestURL r))"

definition ServeHTTP_mirrors ::
  "stdlib \<Rightarrow> 'w transport \<Rightarrow> MirrorProxy \<Rightarrow> ResponseWriter \<Rightarrow> Request \<Rightarrow> 'w net \<Rightarrow> ResponseWriter \<times> 'w net"
where
  "ServeHTTP_mirrors lib Do p w r st =
     (let targetURL = mirrorTargetURL lib r in
      case tryRequest lib Do p targetURL r st of
        (Inl err, st') \<Rightarrow> (http_Error w ''Failed to reach target server'' StatusBadGateway, st')
      | (Inr resp, st') \<Rightarrow>
          (case (if StatusCode resp = StatusNotFound \<and> length (mirrors p) > 0
                 then tryMirrors lib Do p targetURL r (mirrors p) (Close resp) st'
                 else (resp, st')) of
             (resp, st'') \<Rightarrow> (writeResponse w resp, st'')))"

section \<open>Notions used to state the properties\<close>

text \<open>
  The position at which \<^verbatim>\<open>replaceAll\<close> resumes its search after a match ending at
  \<open>a1\<close>, and the successive matches it finds from a position on.
\<close>

definition advance :: "string \<Rightarrow> nat \<Rightarrow> int \<Rightarrow> nat" where
  "advance src searchPos a1 =
     (let width = snd (DecodeRuneInString (drop searchPos src))
      in if int (searchPos + width) > a1 then searchPos + width
         else if int (searchPos + 1) > a1 then searchPos + 1
         else nat a1)"

lemma advance_gt:
  assumes "searchPos \<le> length src" "int searchPos \<le> a1"
  shows "searchPos < advance src searchPos a1"
proof -
  have "snd (DecodeRuneInString (drop searchPos src)) = 0 \<Longrightarrow> searchPos = length src"
    using assms(1) DecodeRuneInString_pos [of "drop searchPos src"]
    by (cases "searchPos < length src") simp_all
  with assms show ?thesis
    unfolding advance_def Let_def
    by (cases "snd (DecodeRuneInString (drop searchPos src)) = 0") (simp_all, linarith+)
qed

lemma advance_ge: "int searchPos \<le> a1 \<Longrightarrow> a1 \<le> int (advance src searchPos a1)"
  unfolding advance_def Let_def by auto

function occurrences :: "regexp \<Rightarrow> string \<Rightarrow> nat \<Rightarrow> nat \<Rightarrow> submatch list" where
  "occurrences re src ncap searchPos =
     (if searchPos \<le> length src then
        (case doExecute re src searchPos ncap of
           None \<Rightarrow> []
         | Some [] \<Rightarrow> []
         | Some ((a0, a1) # rest) \<Rightarrow>
             ((a0, a1) # rest) # occurrences re src ncap (advance src searchPos a1))
      else [])"
  by pat_completeness auto
termination
proof (relation "measure (\<lambda>(re, src, ncap, searchPos). Suc (length src) - searchPos)", goal_cases)
  case 1
  show ?case by simp
next
  case (2 re src ncap searchPos x2 x21 x22 a0 a1)
  then have "doExecute re src searchPos ncap = Some ((a0, a1) # x22)" by simp
  then have "int searchPos \<le> a1"
    using doExecute_first [of re src searchPos ncap a0 a1 x22] by simp
  with 2(1) have "searchPos < advance src searchPos a1" by (rule advance_gt)
  with 2(1) show ?case by simp
qed

declare occurrences.simps [simp del]

fun splice :: "unicode \<Rightarrow> regexp \<Rightarrow> string \<Rightarrow> string \<Rightarrow> int \<Rightarrow> submatch list \<Rightarrow> string" where
  "splice u re src repl lastMatchEnd [] = slice src lastMatchEnd (int (length src))"
| "splice u re src repl lastMatchEnd (a # as) =
     slice src lastMatchEnd (fst (hd a))
     @ (if snd (hd a) > lastMatchEnd \<or> fst (hd a) = 0 then expand u re [] repl src a else [])
     @ splice u re src repl (snd (hd a)) as"

fun ordered :: "int \<Rightarrow> submatch list \<Rightarrow> bool" where
  "ordered lastMatchEnd [] = True"
| "ordered lastMatchEnd (a # as) =
     (lastMatchEnd \<le> fst (hd a) \<and> fst (hd a) \<le> snd (hd a) \<and> ordered (snd (hd a)) as)"

definition replacedOccurrences :: "regexp \<Rightarrow> string \<Rightarrow> string \<Rightarrow> submatch list" where
  "replacedOccurrences re src repl =
     occurrences re src (if CHR ''$'' \<in> set repl then numSubexp re + 1 else 1) 0"

text \<open>
  An occurrence is a match of the pattern when the matcher reports it at some position
  of the string (\<open>isMatch\<close>). A position at which a match starts is accounted for by the
  occurrences when one of them starts there, or covers it, or ends at or before it
  within one character: the search that found this occurrence started at the first byte
  \<open>s\<close> of that character and resumes after it.
\<close>

definition isMatch :: "regexp \<Rightarrow> string \<Rightarrow> nat \<Rightarrow> submatch \<Rightarrow> bool" where
  "isMatch re src ncap a =
     list_ex (\<lambda>q. case matchAt re src q of
                     None \<Rightarrow> False
                   | Some (n, caps) \<Rightarrow> a = take ncap ((int q, int (q + n)) # caps))
       [0 ..< Suc (length src)]"

definition accountedFor :: "string \<Rightarrow> submatch list \<Rightarrow> nat \<Rightarrow> bool" where
  "accountedFor src occ q =
     list_ex (\<lambda>a. fst (hd a) = int q
                 \<or> (fst (hd a) < int q \<and> int q < snd (hd a))
                 \<or> list_ex (\<lambda>s. int s \<le> fst (hd a) \<and> snd (hd a) \<le> int q
                                  \<and> q < s + snd (DecodeRuneInString (drop s src)))
                      [0 ..< Suc q])
       occ"


text \<open>The string that \<^verbatim>\<open>buildTargetURL\<close> hands to \<^verbatim>\<open>findMapping\<close>.\<close>

definition originalPath :: "Request \<Rightarrow> string" where
  "originalPath r =
     Path (RequestURL r) @ (if RawQuery (RequestURL r) \<noteq> [] then ''?'' @ RawQuery (RequestURL r) else [])"

text \<open>The requests sent between two states of the network, each with its outcome.\<close>

definition newCalls :: "'w net \<Rightarrow> 'w net \<Rightarrow> (Request \<times> (error + Response)) list" where
  "newCalls st st' = drop (length (calls st)) (calls st')"

text \<open>
  An attempt that the mirror loop passes over: a transport error or a 404 response. The
  request \<^verbatim>\<open>ServeHTTP\<close> builds for one mirror, when its URL can be built. The values
  of a header as \<^verbatim>\<open>Header.Values\<close> reads them.
\<close>

definition notFoundOrFailed :: "error + Response \<Rightarrow> bool" where
  "notFoundOrFailed res = (case res of Inl err \<Rightarrow> True | Inr resp \<Rightarrow> StatusCode resp = StatusNotFound)"

definition mirrorRequest :: "stdlib \<Rightarrow> Request \<Rightarrow> string \<Rightarrow> string \<Rightarrow> Request option" where
  "mirrorRequest lib r targetURL mirror =
     (case replaceHost lib targetURL mirror of
        Inl err \<Rightarrow> None
      | Inr mirrorURL \<Rightarrow>
          (case NewRequest lib (Method r) mirrorURL None of
             Inl err \<Rightarrow> None
           | Inr proxyReq \<Rightarrow> Some (forwardHeaders r proxyReq)))"

definition Header_Values :: "Header \<Rightarrow> string \<Rightarrow> string list" where
  "Header_Values h key = header_values h (CanonicalMIMEHeaderKey key)"










section \<open>Concrete patterns for the examples\<close>

text \<open>
  A small pattern language, to build compiled patterns on which the definitions can be
  run: literals, \<^verbatim>\<open>.\<close>, \<^verbatim>\<open>\d\<close>, concatenation, alternation, the greedy star and
  numbered groups, matched by backtracking with Go's preferences (the left alternative
  first, one more iteration first) on ASCII text. \<open>rx_run\<close> lists the ways a pattern can
  match from a position, the preferred one first.
\<close>

datatype rx = Lit string | AnyChar | Digit | Cat rx rx | Alt rx rx | Star rx | Group nat rx

type_synonym rx_state = "nat \<times> submatch"

fun star_run :: "nat \<Rightarrow> (rx_state \<Rightarrow> rx_state list) \<Rightarrow> rx_state \<Rightarrow> rx_state list" where
  "star_run 0 step st = [st]"
| "star_run (Suc k) step st =
     concat (map (star_run k step) (filter (\<lambda>st'. fst st' > fst st) (step st))) @ [st]"

fun rx_run :: "rx \<Rightarrow> string \<Rightarrow> rx_state \<Rightarrow> rx_state list" where
  "rx_run (Lit w) s (p, c) = (if take (length w) (drop p s) = w then [(p + length w, c)] else [])"
| "rx_run AnyChar s (p, c) = (if p < length s \<and> s ! p \<noteq> CHR 0x0A then [(Suc p, c)] else [])"
| "rx_run Digit s (p, c) = (if p < length s \<and> between 0x30 0x39 (s ! p) then [(Suc p, c)] else [])"
| "rx_run (Cat a b) s st = concat (map (rx_run b s) (rx_run a s st))"
| "rx_run (Alt a b) s st = rx_run a s st @ rx_run b s st"
| "rx_run (Star a) s (p, c) = star_run (length s - p) (rx_run a s) (p, c)"
| "rx_run (Group k a) s (p, c) = map (\<lambda>(q, c'). (q, c'[k - 1 := (int p, int q)])) (rx_run a s (p, c))"

definition rx_compile :: "nat \<Rightarrow> rx \<Rightarrow> regexp" where
  "rx_compile n r = \<lparr> numSubexp = n, subexpNames = replicate (Suc n) [],
     matchAt = (\<lambda>src p. case rx_run r src (p, replicate n (- 1, - 1)) of
                          [] \<Rightarrow> None | (q, c) # _ \<Rightarrow> Some (q - p, c)) \<rparr>"

text \<open>
  The patterns \<^verbatim>\<open>.*/(\d+)\.x/(aarch64|armhf)/tcz/watchdog\.tcz\<close> and \<^verbatim>\<open>/test/(\d+)\<close>
  of the repository's configuration and tests.
\<close>

definition watchdog :: regexp where
  "watchdog = rx_compile 2 (Cat (Star AnyChar) (Cat (Lit ''/'') (Cat (Group 1 (Cat Digit (Star Digit)))
     (Cat (Lit ''.x/'') (Cat (Group 2 (Alt (Lit ''aarch64'') (Lit ''armhf''))) (Lit ''/tcz/watchdog.tcz''))))))"

definition testItem :: regexp where
  "testItem = rx_compile 1 (Cat (Lit ''/test/'') (Group 1 (Cat Digit (Star Digit))))"

definition exampleProxy :: Proxy where
  "exampleProxy =
     \<lparr> client = \<lparr> Timeout = 30, CheckRedirect = Some ErrUseLastResponse \<rparr>,
       defaultHost = ''https://default.com'',
       compiledMappings =
         [\<lparr> regex = watchdog, to = ''https://host/$1/watchdog-$2.zip'' \<rparr>,
          \<lparr> regex = testItem, to = ''https://mapped.com/item/$1'' \<rparr>],
       followRedirects = False \<rparr>"

text \<open>
  A library for the examples. Its URL parser is \<^verbatim>\<open>url.Parse\<close> restricted to the
  URLs that occur in the examples, none of which needs escaping; it rejects every other
  string (among them \<^verbatim>\<open>://invalid\<close>, which \<^verbatim>\<open>url.Parse\<close> rejects as well). Its
  pattern compiler knows the two patterns above and rejects everything else. Its Unicode
  tables are those of Go up to U+024F, where every rune from U+0100 on is a letter and
  none is a digit; the examples use no rune above.
\<close>

definition exampleURL :: "string \<Rightarrow> string \<Rightarrow> string \<Rightarrow> string \<Rightarrow> URL" where
  "exampleURL scheme host path query =
     zeroURL\<lparr> Scheme := scheme, Host := host, Path := path, RawQuery := query \<rparr>"

definition exampleParse :: "string \<Rightarrow> error + URL" where
  "exampleParse s =
     (if s = ''https://default.com'' then Inr (exampleURL ''https'' ''default.com'' [] [])
      else if s = ''https://default.com/some/path?key=value''
        then Inr (exampleURL ''https'' ''default.com'' ''/some/path'' ''key=value'')
      else if s = ''https://default.com/x'' then Inr (exampleURL ''https'' ''default.com'' ''/x'' [])
      else if s = ''http://primary.example/file.txt''
        then Inr (exampleURL ''http'' ''primary.example'' ''/file.txt'' [])
      else if s = ''https://down.example'' then Inr (exampleURL ''https'' ''down.example'' [] [])
      else if s = ''https://down.example/file.txt''
        then Inr (exampleURL ''https'' ''down.example'' ''/file.txt'' [])
      else if s = ''https://mirror1.example'' then Inr (exampleURL ''https'' ''mirror1.example'' [] [])
      else if s = ''https://mirror1.example/file.txt''
        then Inr (exampleURL ''https'' ''mirror1.example'' ''/file.txt'' [])
      else if s = ''https://mirror2.example'' then Inr (exampleURL ''https'' ''mirror2.example'' [] [])
      else if s = ''https://mirror2.example/file.txt''
        then Inr (exampleURL ''https'' ''mirror2.example'' ''/file.txt'' [])
      else if s = ''https://mirror3.example'' then Inr (exampleURL ''https'' ''mirror3.example'' [] [])
      else if s = ''https://mirror3.example/file.txt''
        then Inr (exampleURL ''https'' ''mirror3.example'' ''/file.txt'' [])
      else if s = ''/x?next=https://mapped.com/item/7''
        then Inr (exampleURL [] [] ''/x'' ''next=https://mapped.com/item/7'')
      else Inl ''parse: not a URL of the examples'')"

definition exampleUnicode :: unicode where
  "exampleUnicode =
     \<lparr> unicode_Letter = (\<lambda>r. 0x100 \<le> r \<and> r \<le> 0x24F), unicode_Digit = (\<lambda>r. False) \<rparr>"

definition exampleLib :: stdlib where
  "exampleLib =
     \<lparr> unicode_tables = exampleUnicode,
       regexp_Compile =
         (\<lambda>s. if s = ''/test/('' @ [CHR 0x5C] @ ''d+)'' then Inr testItem
              else if s = ''.*/('' @ [CHR 0x5C] @ ''d+)'' @ [CHR 0x5C] @ ''.x/(aarch64|armhf)/tcz/watchdog''
                          @ [CHR 0x5C] @ ''.tcz''
              then Inr watchdog
              else Inl ''error parsing regexp''),
       url_Parse = exampleParse,
       url_EscapedPath = Path,
       url_EscapedFragment = Fragment,
       url_escapeHost = (\<lambda>h. h) \<rparr>"

definition exampleRequest :: "string \<Rightarrow> string \<Rightarrow> string option \<Rightarrow> Request" where
  "exampleRequest path query body =
     \<lparr> Method = ''GET'',
       RequestURL = exampleURL [] [] path query,
       RequestHeader = [(''User-Agent'', [''test-agent'']), (''X-Custom'', [''a'', ''b''])],
       Body = body, RequestHost = ''localhost'', RemoteAddr = ''192.0.2.1:1234'' \<rparr>"

text \<open>
  A network for the examples: the answer depends on the host, and the state of the world
  counts the requests. A request whose URL has another scheme than \<^verbatim>\<open>http\<close> or
  \<^verbatim>\<open>https\<close> is refused before anything is sent, as \<^verbatim>\<open>http.Transport\<close> does.
\<close>

definition exampleDefault200 :: Response where
  "exampleDefault200 =
     \<lparr> StatusCode = 200,
       ResponseHeader = [(''Content-Type'', [''text/plain'']), (''X-Test-Header'', [''test-value''])],
       ResponseBody = ''success'', closed = False \<rparr>"

definition examplePrimary404 :: Response where
  "examplePrimary404 = \<lparr> StatusCode = 404, ResponseHeader = [(''X-Served-By'', [''primary''])],
                          ResponseBody = ''not found'', closed = False \<rparr>"

definition exampleMirror404 :: Response where
  "exampleMirror404 = \<lparr> StatusCode = 404, ResponseHeader = [(''X-Served-By'', [''mirror1''])],
                         ResponseBody = ''not found'', closed = False \<rparr>"

definition exampleMirror200 :: Response where
  "exampleMirror200 = \<lparr> StatusCode = 200, ResponseHeader = [(''X-Served-By'', [''mirror2''])],
                         ResponseBody = ''found on mirror'', closed = False \<rparr>"

definition exampleTransport :: "nat transport" where
  "exampleTransport c req n =
     (let h = Host (RequestURL req) in
      if Scheme (RequestURL req) \<noteq> ''http'' \<and> Scheme (RequestURL req) \<noteq> ''https''
      then (Inl ''unsupported protocol scheme'', n)
      else if h = ''default.com'' then (Inr exampleDefault200, Suc n)
      else if h = ''primary.example'' then (Inr examplePrimary404, Suc n)
      else if h = ''mirror1.example'' then (Inr exampleMirror404, Suc n)
      else if h = ''mirror2.example'' then (Inr exampleMirror200, Suc n)
      else (Inl ''dial tcp: lookup failed: no such host'', Suc n))"

definition emptyWriter :: ResponseWriter where
  "emptyWriter = \<lparr> wHeader = [], wStatus = None, wBody = [] \<rparr>"

definition emptyNet :: "nat net" where
  "emptyNet = \<lparr> world = 0, calls = [] \<rparr>"

text \<open>
  A request received through the proxy protocol, with an absolute URL and a body, and a
  list of mirrors: one that does not parse, one that is unreachable, one that answers
  404, one that answers 200, and one more.
\<close>

definition exampleProxyRequest :: Request where
  "exampleProxyRequest =
     \<lparr> Method = ''POST'',
       RequestURL = exampleURL ''http'' ''primary.example'' ''/file.txt'' [],
       RequestHeader = [(''User-Agent'', [''test-agent'']), (''X-Forwarded-For'', [''10.0.0.1''])],
       Body = Some ''payload'', RequestHost = ''primary.example'', RemoteAddr = ''192.0.2.1:1234'' \<rparr>"

definition exampleMirrors :: "string list" where
  "exampleMirrors = [''://invalid'', ''https://down.example'', ''https://mirror1.example'',
                     ''https://mirror2.example'', ''https://mirror3.example'']"


definition manyX :: regexp where
  "manyX = rx_compile 0 (Star (Lit ''x''))"

definition exampleDashProxy :: Proxy where
  "exampleDashProxy = exampleProxy\<lparr> compiledMappings := [\<lparr> regex = manyX, to = ''-'' \<rparr>] \<rparr>"

definition exampleMirrorProxy :: MirrorProxy where
  "exampleMirrorProxy = NewMirrorProxy exampleMirrors"

definition exampleSingleMirror :: MirrorProxy where
  "exampleSingleMirror = NewMirrorProxy [''https://mirror1.example'']"

definition exampleTarget :: string where
  "exampleTarget = ''http://primary.example/file.txt''"

section \<open>Properties of the regular-expression library\<close>

lemma expand_no_dollar: "CHR ''$'' \<notin> set t \<Longrightarrow> expand u re dst t src m = dst @ t"
  by (subst expand.simps) simp

lemma expand_step:
  assumes d: "CHR ''$'' \<in> set t"
  shows "\<exists>pre t'. length t' < length t \<and>
           (\<forall>dst. expand u re dst t src m = expand u re (dst @ pre) t' src m)"
proof -
  define before where "before = takeWhile (\<lambda>c. c \<noteq> CHR ''$'') t"
  define after where "after = tl (dropWhile (\<lambda>c. c \<noteq> CHR ''$'') t)"
  have la: "length after < length t"
    unfolding after_def using d by (rule after_dollar_shorter)
  show ?thesis
  proof (cases "after \<noteq> [] \<and> hd after = CHR ''$''")
    case True
    have "\<forall>dst. expand u re dst t src m = expand u re (dst @ (before @ ''$'')) (tl after) src m"
      using d True by (subst expand.simps) (simp add: before_def after_def Let_def)
    moreover have "length (tl after) < length t" using la by simp
    ultimately show ?thesis by blast
  next
    case False
    show ?thesis
    proof (cases "extract_name u after")
      case None
      have "\<forall>dst. expand u re dst t src m = expand u re (dst @ (before @ ''$'')) after src m"
        using d False None by (subst expand.simps) (auto simp: before_def after_def Let_def)
      with la show ?thesis by blast
    next
      case (Some x)
      obtain name num rest where x: "x = (name, num, rest)" by (cases x) auto
      have lr: "length rest < length t"
        using extract_rest_length [of u after name num rest] Some x la by simp
      define pre where "pre = before @
         (if num \<ge> 0 then
            (if nat num < length m \<and> fst (m ! nat num) \<ge> 0
             then slice src (fst (m ! nat num)) (snd (m ! nat num)) else [])
          else expandNamed (subexpNames re) 0 name src m)"
      have "\<forall>dst. expand u re dst t src m = expand u re (dst @ pre) rest src m"
        using d False Some x
        by (subst expand.simps) (auto simp: before_def after_def Let_def pre_def)
      with lr show ?thesis by blast
    qed
  qed
qed

lemma expand_dst: "expand u re dst t src m = dst @ expand u re [] t src m"
proof (induction "length t" arbitrary: t dst rule: less_induct)
  case less
  show ?case
  proof (cases "CHR ''$'' \<in> set t")
    case False
    then show ?thesis by (simp add: expand_no_dollar)
  next
    case True
    from expand_step [OF True, of u re src m] obtain pre t' where
      l: "length t' < length t" and
      e: "\<And>dst. expand u re dst t src m = expand u re (dst @ pre) t' src m"
      by blast
    have "expand u re dst t src m = (dst @ pre) @ expand u re [] t' src m"
      using e [of dst] less [OF l, of "dst @ pre"] by simp
    moreover have "expand u re [] t src m = pre @ expand u re [] t' src m"
      using e [of "[]"] less [OF l, of pre] by simp
    ultimately show ?thesis by simp
  qed
qed

lemma replaceAll_loop_splice:
  "replaceAll_loop re src n (\<lambda>dst match. expand u re dst repl src match) lastMatchEnd searchPos buf
   = buf @ splice u re src repl lastMatchEnd (occurrences re src n searchPos)"
proof (induction "Suc (length src) - searchPos" arbitrary: searchPos lastMatchEnd buf
       rule: less_induct)
  case less
  show ?case
  proof (cases "searchPos \<le> length src")
    case False
    then show ?thesis
      by (subst replaceAll_loop.simps, subst occurrences.simps) simp
  next
    case le: True
    show ?thesis
    proof (cases "doExecute re src searchPos n")
      case None
      with le show ?thesis
        by (subst replaceAll_loop.simps, subst occurrences.simps) simp
    next
      case (Some a)
      show ?thesis
      proof (cases a)
        case Nil
        with le Some show ?thesis
          by (subst replaceAll_loop.simps, subst occurrences.simps) simp
      next
        case (Cons x rest)
        obtain a0 a1 where x: "x = (a0, a1)" by (cases x) auto
        have ex: "doExecute re src searchPos n = Some ((a0, a1) # rest)"
          using Some Cons x by simp
        then have "int searchPos \<le> a1"
          using doExecute_first [of re src searchPos n a0 a1 rest] by simp
        with le have gt: "searchPos < advance src searchPos a1" by (rule advance_gt)
        then have m: "Suc (length src) - advance src searchPos a1 < Suc (length src) - searchPos"
          using le by simp
        have unfold_loop:
          "replaceAll_loop re src n (\<lambda>dst match. expand u re dst repl src match) lastMatchEnd searchPos buf
           = replaceAll_loop re src n (\<lambda>dst match. expand u re dst repl src match) a1
               (advance src searchPos a1)
               (if a1 > lastMatchEnd \<or> a0 = 0
                then expand u re (buf @ slice src lastMatchEnd a0) repl src ((a0, a1) # rest)
                else buf @ slice src lastMatchEnd a0)"
          using le ex by (subst replaceAll_loop.simps) (simp add: advance_def Let_def)
        have unfold_occ:
          "occurrences re src n searchPos
           = ((a0, a1) # rest) # occurrences re src n (advance src searchPos a1)"
          using le ex by (subst occurrences.simps) simp
        show ?thesis
          unfolding unfold_loop unfold_occ less [OF m]
          using expand_dst [of u re "buf @ slice src lastMatchEnd a0" repl src "(a0, a1) # rest"]
          by simp
      qed
    qed
  qed
qed

lemma occurrences_ordered:
  "lastMatchEnd \<le> int searchPos \<Longrightarrow> ordered lastMatchEnd (occurrences re src n searchPos)"
proof (induction "Suc (length src) - searchPos" arbitrary: searchPos lastMatchEnd
       rule: less_induct)
  case less
  show ?case
  proof (cases "searchPos \<le> length src")
    case False
    then show ?thesis by (subst occurrences.simps) simp
  next
    case le: True
    show ?thesis
    proof (cases "doExecute re src searchPos n")
      case None
      with le show ?thesis by (subst occurrences.simps) simp
    next
      case (Some a)
      show ?thesis
      proof (cases a)
        case Nil
        with le Some show ?thesis by (subst occurrences.simps) simp
      next
        case (Cons x rest)
        obtain a0 a1 where x: "x = (a0, a1)" by (cases x) auto
        have ex: "doExecute re src searchPos n = Some ((a0, a1) # rest)"
          using Some Cons x by simp
        then have b: "int searchPos \<le> a0 \<and> a0 \<le> a1"
          using doExecute_first [of re src searchPos n a0 a1 rest] by simp
        then have b1: "int searchPos \<le> a1" by simp
        with le have gt: "searchPos < advance src searchPos a1" by (rule advance_gt)
        then have m: "Suc (length src) - advance src searchPos a1 < Suc (length src) - searchPos"
          using le by simp
        have "ordered a1 (occurrences re src n (advance src searchPos a1))"
          using less(1) [OF m] advance_ge [OF b1] by simp
        moreover have "occurrences re src n searchPos
           = ((a0, a1) # rest) # occurrences re src n (advance src searchPos a1)"
          using le ex by (subst occurrences.simps) simp
        ultimately show ?thesis using b less(2) by simp
      qed
    qed
  qed
qed
lemma find_None_set: "find P xs = None \<longleftrightarrow> (\<forall>x\<in>set xs. \<not> P x)"
  by (induction xs) auto

lemma find_Some_first:
  "find P [i ..< j] = Some p \<Longrightarrow> i \<le> p \<and> p < j \<and> P p \<and> (\<forall>q. i \<le> q \<and> q < p \<longrightarrow> \<not> P q)"
proof (induction "j - i" arbitrary: i)
  case 0
  then show ?case by simp
next
  case (Suc k)
  then have lt: "i < j" by simp
  then have u: "[i ..< j] = i # [Suc i ..< j]" by (simp add: upt_conv_Cons)
  show ?case
  proof (cases "P i")
    case True
    with Suc.prems u lt show ?thesis by auto
  next
    case False
    with Suc.prems u have f: "find P [Suc i ..< j] = Some p" by simp
    have "k = j - Suc i" using Suc.hyps(2) by simp
    from Suc.hyps(1) [OF this f] False show ?thesis
      by (metis Suc_leD Suc_leI le_neq_implies_less)
  qed
qed

lemma doExecute_SomeD:
  assumes "doExecute re src pos n = Some a"
  shows "\<exists>p k caps. pos \<le> p \<and> p \<le> length src \<and> matchAt re src p = Some (k, caps)
           \<and> a = take n ((int p, int (p + k)) # caps)
           \<and> (\<forall>q. pos \<le> q \<and> q < p \<longrightarrow> matchAt re src q = None)"
proof -
  from assms obtain p k caps where
    f: "find (\<lambda>p. matchAt re src p \<noteq> None) [pos ..< Suc (length src)] = Some p"
    and m: "matchAt re src p = Some (k, caps)"
    and t: "a = take n ((int p, int (p + k)) # caps)"
    by (auto simp: doExecute_def split: option.splits)
  from find_Some_first [OF f]
  have "pos \<le> p" "p < Suc (length src)" "\<forall>q. pos \<le> q \<and> q < p \<longrightarrow> matchAt re src q = None"
    by blast+
  then have "pos \<le> p" "p \<le> length src" "\<forall>q. pos \<le> q \<and> q < p \<longrightarrow> matchAt re src q = None"
    by simp_all
  with m t show ?thesis by blast
qed

lemma doExecute_SomeI:
  assumes "pos \<le> p" "p \<le> length src" "matchAt re src p = Some (k, caps)"
    and "\<forall>q. pos \<le> q \<and> q < p \<longrightarrow> matchAt re src q = None"
  shows "doExecute re src pos n = Some (take n ((int p, int (p + k)) # caps))"
proof -
  have "find (\<lambda>p. matchAt re src p \<noteq> None) [pos ..< Suc (length src)] = Some p"
    unfolding find_Some_iff
  proof (intro exI [of _ "p - pos"] conjI allI impI)
    show "p - pos < length [pos ..< Suc (length src)]" using assms(1,2) by simp
    show "matchAt re src ([pos ..< Suc (length src)] ! (p - pos)) \<noteq> None"
      using assms(1,2,3) by (simp del: upt_Suc)
    show "p = [pos ..< Suc (length src)] ! (p - pos)"
      using assms(1,2) by (simp del: upt_Suc)
    fix j assume "j < p - pos"
    then show "\<not> matchAt re src ([pos ..< Suc (length src)] ! j) \<noteq> None"
      using assms(1,2,4) by (simp del: upt_Suc)
  qed
  with assms(3) show ?thesis by (simp add: doExecute_def del: upt_Suc)
qed

lemma doExecute_None_iff:
  "doExecute re src pos n = None \<longleftrightarrow> (\<forall>p. pos \<le> p \<and> p \<le> length src \<longrightarrow> matchAt re src p = None)"
proof
  assume "doExecute re src pos n = None"
  then have "find (\<lambda>p. matchAt re src p \<noteq> None) [pos ..< Suc (length src)] = None"
    by (auto simp: doExecute_def simp del: upt_Suc split: option.splits dest: find_Some_set)
  then have "\<forall>x\<in>set [pos ..< Suc (length src)]. matchAt re src x = None"
    unfolding find_None_set by blast
  then show "\<forall>p. pos \<le> p \<and> p \<le> length src \<longrightarrow> matchAt re src p = None"
    by (simp del: upt_Suc)
next
  assume "\<forall>p. pos \<le> p \<and> p \<le> length src \<longrightarrow> matchAt re src p = None"
  then have "\<forall>x\<in>set [pos ..< Suc (length src)]. \<not> matchAt re src x \<noteq> None"
    by (simp del: upt_Suc)
  then have "find (\<lambda>p. matchAt re src p \<noteq> None) [pos ..< Suc (length src)] = None"
    unfolding find_None_set .
  then show "doExecute re src pos n = None" by (simp add: doExecute_def del: upt_Suc)
qed

lemma MatchString_iff:
  "MatchString re s \<longleftrightarrow> (\<exists>p \<le> length s. matchAt re s p \<noteq> None)"
  unfolding MatchString_def doExecute_None_iff by auto

lemma doExecute_ncap:
  assumes "doExecute re src pos n = Some a"
  shows "\<exists>full. doExecute re src pos k = Some (take k full) \<and> a = take n full \<and> full \<noteq> []"
proof -
  from doExecute_SomeD [OF assms] obtain p j caps where
    h: "pos \<le> p" "p \<le> length src" "matchAt re src p = Some (j, caps)"
       "\<forall>q. pos \<le> q \<and> q < p \<longrightarrow> matchAt re src q = None"
    and a: "a = take n ((int p, int (p + j)) # caps)"
    by blast
  from doExecute_SomeI [OF h, of k] a show ?thesis by blast
qed

lemma findMapping_loop_first:
  assumes "\<forall>x\<in>set pre. \<not> MatchString (regex x) path" "MatchString (regex m) path"
  shows "findMapping_loop u (pre @ m # post) path = (ReplaceAllString u (regex m) path (to m), True)"
  using assms by (induction pre) simp_all

lemma findMapping_loop_none:
  "\<forall>x\<in>set ms. \<not> MatchString (regex x) path \<Longrightarrow> findMapping_loop u ms path = ([], False)"
  by (induction ms) simp_all

lemma ReplaceAllString_splice:
  "ReplaceAllString u re src repl = splice u re src repl 0 (replacedOccurrences re src repl)"
  unfolding ReplaceAllString_def replaceAll_def replacedOccurrences_def Let_def
  by (simp add: replaceAll_loop_splice)

lemma MatchString_occurrences:
  assumes "MatchString re src"
  shows "replacedOccurrences re src repl \<noteq> []"
proof -
  from assms obtain a where "doExecute re src 0 0 = Some a"
    by (auto simp: MatchString_def)
  from doExecute_ncap [OF this, of "if CHR ''$'' \<in> set repl then numSubexp re + 1 else 1"]
  obtain full where
    "doExecute re src 0 (if CHR ''$'' \<in> set repl then numSubexp re + 1 else 1)
       = Some (take (if CHR ''$'' \<in> set repl then numSubexp re + 1 else 1) full)"
    and "full \<noteq> []" by blast
  then show ?thesis
    unfolding replacedOccurrences_def
    by (subst occurrences.simps) (cases full, auto)
qed




subsection \<open>Templates and occurrences\<close>













lemma accountedFor_Cons: "accountedFor src occ q \<Longrightarrow> accountedFor src (a # occ) q"
  by (simp add: accountedFor_def)

lemma occurrences_isMatch:
  "a \<in> set (occurrences re src n s) \<Longrightarrow> isMatch re src n a"
proof (induction "Suc (length src) - s" arbitrary: s rule: less_induct)
  case less
  show ?case
  proof (cases "s \<le> length src")
    case False
    with less.prems show ?thesis by (subst (asm) occurrences.simps) simp
  next
    case le: True
    show ?thesis
    proof (cases "doExecute re src s n")
      case None
      with le less.prems show ?thesis by (subst (asm) occurrences.simps) simp
    next
      case (Some b)
      show ?thesis
      proof (cases b)
        case Nil
        with le Some less.prems show ?thesis by (subst (asm) occurrences.simps) simp
      next
        case (Cons x rest)
        obtain a0 a1 where x: "x = (a0, a1)" by (cases x) auto
        have ex: "doExecute re src s n = Some ((a0, a1) # rest)" using Some Cons x by simp
        then have "int s \<le> a1"
          using doExecute_first [of re src s n a0 a1 rest] by simp
        with le have gt: "s < advance src s a1" by (rule advance_gt)
        then have m: "Suc (length src) - advance src s a1 < Suc (length src) - s"
          using le by simp
        have u: "occurrences re src n s = ((a0, a1) # rest) # occurrences re src n (advance src s a1)"
          using le ex by (subst occurrences.simps) simp
        from less.prems have "a = (a0, a1) # rest \<or> a \<in> set (occurrences re src n (advance src s a1))"
          unfolding u by simp
        then show ?thesis
        proof
          assume a: "a = (a0, a1) # rest"
          from doExecute_SomeD [OF ex] obtain p k caps where
            p: "p \<le> length src" and mp: "matchAt re src p = Some (k, caps)"
            and t: "(a0, a1) # rest = take n ((int p, int (p + k)) # caps)"
            by blast
          have "p \<in> set [0 ..< Suc (length src)]" using p by (simp del: upt_Suc)
          moreover have "case matchAt re src p of None \<Rightarrow> False
                         | Some (n', caps) \<Rightarrow> a = take n ((int p, int (p + n')) # caps)"
            using mp t a by simp
          ultimately show ?thesis unfolding isMatch_def list_ex_iff by blast
        next
          assume "a \<in> set (occurrences re src n (advance src s a1))"
          with less.hyps [OF m] show ?thesis .
        qed
      qed
    qed
  qed
qed

lemma occurrences_complete:
  assumes "0 < n"
  shows "s \<le> q \<Longrightarrow> q \<le> length src \<Longrightarrow> matchAt re src q \<noteq> None
           \<Longrightarrow> accountedFor src (occurrences re src n s) q"
proof (induction "Suc (length src) - s" arbitrary: s rule: less_induct)
  case less
  have le: "s \<le> length src" using less.prems by simp
  show ?case
  proof (cases "doExecute re src s n")
    case None
    then have "matchAt re src q = None"
      unfolding doExecute_None_iff using less.prems by blast
    with less.prems show ?thesis by simp
  next
    case (Some b)
    from doExecute_SomeD [OF Some] obtain p k caps where
      sp: "s \<le> p" and p: "p \<le> length src" and mp: "matchAt re src p = Some (k, caps)"
      and b: "b = take n ((int p, int (p + k)) # caps)"
      and left: "\<forall>j. s \<le> j \<and> j < p \<longrightarrow> matchAt re src j = None"
      by blast
    obtain n' where n': "n = Suc n'" using assms by (cases n) auto
    have b': "b = (int p, int (p + k)) # take n' caps" using b n' by simp
    have pq: "p \<le> q" using left less.prems by (metis not_le_imp_less)
    have a1: "int s \<le> int (p + k)" using sp by simp
    with le have gt: "s < advance src s (int (p + k))" by (rule advance_gt)
    then have m: "Suc (length src) - advance src s (int (p + k)) < Suc (length src) - s"
      using le by simp
    have u: "occurrences re src n s = b # occurrences re src n (advance src s (int (p + k)))"
      using le Some b' by (subst occurrences.simps) simp
    have hd: "fst (hd b) = int p" "snd (hd b) = int (p + k)" using b' by simp_all
    show ?thesis
    proof (cases "advance src s (int (p + k)) \<le> q")
      case True
      from less.hyps [OF m True less.prems(2,3)] show ?thesis
        unfolding u by (rule accountedFor_Cons)
    next
      case False
      then have lt: "q < advance src s (int (p + k))" by simp
      show ?thesis
      proof (cases "q < p + k")
        case True
        with pq hd show ?thesis unfolding u accountedFor_def by auto
      next
        case ge: False
        then have "advance src s (int (p + k)) \<noteq> p + k" using lt by simp
        then have w: "q < s + snd (DecodeRuneInString (drop s src)) \<or> q < s + 1"
          using lt unfolding advance_def Let_def by (auto split: if_splits)
        show ?thesis
        proof (cases "q < s + 1")
          case True
          with less.prems(1) sp pq have "q = p" by simp
          with hd show ?thesis unfolding u accountedFor_def by simp
        next
          case False
          with w have "q < s + snd (DecodeRuneInString (drop s src))" by simp
          moreover have "s \<in> set [0 ..< Suc q]" using less.prems(1) by (simp del: upt_Suc)
          ultimately have "list_ex (\<lambda>s. int s \<le> fst (hd b) \<and> snd (hd b) \<le> int q
                                  \<and> q < s + snd (DecodeRuneInString (drop s src))) [0 ..< Suc q]"
            unfolding list_ex_iff using sp ge hd by (intro bexI [of _ s]) simp_all
          then show ?thesis unfolding u accountedFor_def by simp
        qed
      qed
    qed
  qed
qed

section \<open>Properties of target resolution and of the handlers\<close>

lemma findMapping_loop_found_iff:
  "snd (findMapping_loop u ms path) \<longleftrightarrow> (\<exists>m\<in>set ms. MatchString (regex m) path)"
  by (induction ms) (simp_all add: Let_def)

lemma findMapping_loop_not_found:
  "\<not> snd (findMapping_loop u ms path) \<Longrightarrow> findMapping_loop u ms path = ([], False)"
  by (induction ms) (simp_all add: Let_def split: if_splits)

lemma buildTargetURL_originalPath:
  "buildTargetURL lib p r =
     (case findMapping lib p (originalPath r) of
        (mappedURL, True) \<Rightarrow> Inr mappedURL
      | (_, False) \<Rightarrow>
          if defaultHost p = [] then Inl ''no default host configured and no mapping matched''
          else
            (case url_Parse lib (defaultHost p) of
               Inl err \<Rightarrow> Inl (''invalid default host: '' @ err)
             | Inr parsed \<Rightarrow>
                 Inr (URL_String lib (zeroURL\<lparr> Scheme := Scheme parsed, Host := Host parsed,
                                               Path := Path (RequestURL r),
                                               RawQuery := RawQuery (RequestURL r) \<rparr>))))"
  by (auto simp: buildTargetURL_def originalPath_def Let_def split: prod.splits bool.splits sum.splits)

lemma findMapping_no_match:
  "\<forall>m\<in>set (compiledMappings p). \<not> MatchString (regex m) s \<Longrightarrow> findMapping lib p s = ([], False)"
  unfolding findMapping_def by (rule findMapping_loop_none)

lemma wStatus_http_Error: "wStatus w = None \<Longrightarrow> wStatus (http_Error w msg code) = Some code"
  by (simp add: http_Error_def Write_def WriteHeader_def Let_def)

lemma compileMappings_Inr:
  "compileMappings lib ms acc = Inr cs \<Longrightarrow>
     map (\<lambda>c. (Inr (regex c), to c)) cs
       = map (\<lambda>c. (Inr (regex c), to c)) acc @ map (\<lambda>m. (regexp_Compile lib (From m), To m)) ms"
  by (induction ms arbitrary: acc) (auto split: sum.splits)

lemma compileMappings_Inl:
  "m \<in> set ms \<Longrightarrow> regexp_Compile lib (From m) = Inl err \<Longrightarrow> \<exists>e. compileMappings lib ms acc = Inl e"
  by (induction ms arbitrary: acc) (auto split: sum.splits)

lemma header_values_store:
  "header_values (header_store k vs h) k' = (if k' = k then vs else header_values h k')"
  by (induction h) (auto simp: header_values_def)

lemma header_values_Add:
  "header_values (Header_Add h key v) k
     = (if k = CanonicalMIMEHeaderKey key then header_values h k @ [v] else header_values h k)"
  by (simp add: Header_Add_def Let_def header_values_store)

lemma header_values_Set:
  "header_values (Header_Set h key v) k
     = (if k = CanonicalMIMEHeaderKey key then [v] else header_values h k)"
  by (simp add: Header_Set_def header_values_store)

lemma header_values_addValues:
  "header_values (addValues name vs dst) k
     = (if k = CanonicalMIMEHeaderKey name then header_values dst k @ vs else header_values dst k)"
  by (induction vs arbitrary: dst) (simp_all add: header_values_Add)

lemma copyHeader_keeps:
  "set (header_values dst k) \<subseteq> set (header_values (copyHeader src dst) k)"
proof (induction src arbitrary: dst)
  case Nil
  then show ?case by simp
next
  case (Cons a src)
  obtain n vs where a: "a = (n, vs)" by (cases a) auto
  have "set (header_values dst k) \<subseteq> set (header_values (addValues n vs dst) k)"
    by (simp add: header_values_addValues)
  with Cons [of "addValues n vs dst"] show ?case unfolding a by auto
qed

lemma copyHeader_copies:
  assumes "(name, values) \<in> set src" "v \<in> set values"
  shows "v \<in> set (header_values (copyHeader src dst) (CanonicalMIMEHeaderKey name))"
  using assms
proof (induction src arbitrary: dst)
  case Nil
  then show ?case by simp
next
  case (Cons a src)
  obtain n vs where a: "a = (n, vs)" by (cases a) auto
  show ?case
  proof (cases "a = (name, values)")
    case True
    then have "v \<in> set (header_values (addValues n vs dst) (CanonicalMIMEHeaderKey name))"
      using Cons.prems(2) a by (simp add: header_values_addValues)
    then show ?thesis
      unfolding a using copyHeader_keeps [of "addValues n vs dst" "CanonicalMIMEHeaderKey name" src]
      by auto
  next
    case False
    with Cons.prems have "(name, values) \<in> set src" by simp
    from Cons.IH [OF this Cons.prems(2)] show ?thesis unfolding a by simp
  qed
qed

lemma canonical_XFF: "CanonicalMIMEHeaderKey ''X-Forwarded-For'' = ''X-Forwarded-For''"
  by code_simp

lemma forwardHeaders_fields:
  "Method (forwardHeaders r req) = Method req" "Body (forwardHeaders r req) = Body req"
  "RequestURL (forwardHeaders r req) = RequestURL req"
  by (simp_all add: forwardHeaders_def Let_def)

lemma forwardHeaders_copies:
  assumes "(name, values) \<in> set (RequestHeader r)" "v \<in> set values"
    and "CanonicalMIMEHeaderKey name \<noteq> ''X-Forwarded-For'' \<or> RemoteAddr r = []"
  shows "v \<in> set (header_values (RequestHeader (forwardHeaders r req)) (CanonicalMIMEHeaderKey name))"
  using copyHeader_copies [OF assms(1,2), of "RequestHeader req"] assms(3)
  by (auto simp: forwardHeaders_def Let_def header_values_Set canonical_XFF)

lemma forwardHeaders_XFF:
  "RemoteAddr r \<noteq> [] \<Longrightarrow>
     header_values (RequestHeader (forwardHeaders r req)) ''X-Forwarded-For'' = [RemoteAddr r]"
  by (simp add: forwardHeaders_def Let_def header_values_Set canonical_XFF)

lemma NewRequest_fields:
  "NewRequest lib method url body = Inr req \<Longrightarrow>
     Method req = (if method = [] then ''GET'' else method) \<and> Body req = body
     \<and> RequestHeader req = []"
  by (auto simp: NewRequest_def Let_def split: if_splits sum.splits)

lemma client_Do_calls:
  "client_Do Do c req st = (res, st') \<Longrightarrow> calls st' = calls st @ [(req, res)]"
  by (auto simp: client_Do_def split: prod.splits)

text \<open>What one run of \<open>ServeHTTP\<close> sends: nothing, or one request built from the target.\<close>

lemma ServeHTTP_calls:
  "newCalls st (snd (ServeHTTP lib Do p w r st)) = []
   \<or> (\<exists>targetURL proxyReq res.
        buildTargetURL lib p r = Inr targetURL
        \<and> NewRequest lib (Method r) targetURL (Body r) = Inr proxyReq
        \<and> newCalls st (snd (ServeHTTP lib Do p w r st)) = [(forwardHeaders r proxyReq, res)]
        \<and> (case res of
              Inl err \<Rightarrow> fst (ServeHTTP lib Do p w r st)
                           = http_Error w ''Failed to reach target server'' StatusBadGateway
            | Inr resp \<Rightarrow> fst (ServeHTTP lib Do p w r st) = writeResponse w resp))"
proof (cases "buildTargetURL lib p r")
  case (Inl e)
  then show ?thesis by (simp add: ServeHTTP_def newCalls_def)
next
  case (Inr targetURL)
  show ?thesis
  proof (cases "NewRequest lib (Method r) targetURL (Body r)")
    case (Inl e)
    with Inr show ?thesis by (simp add: ServeHTTP_def newCalls_def)
  next
    case req: (Inr proxyReq)
    obtain res st' where d: "client_Do Do (client p) (forwardHeaders r proxyReq) st = (res, st')"
      by (cases "client_Do Do (client p) (forwardHeaders r proxyReq) st") auto
    from client_Do_calls [OF d] have c: "newCalls st st' = [(forwardHeaders r proxyReq, res)]"
      by (simp add: newCalls_def)
    show ?thesis
    proof (cases res)
      case (Inl e)
      with Inr req d c show ?thesis by (simp add: ServeHTTP_def)
    next
      case r2: (Inr resp)
      with Inr req d c show ?thesis by (simp add: ServeHTTP_def)
    qed
  qed
qed

lemma tryRequest_cases:
  assumes "tryRequest lib Do p url r st = (res, st')"
  shows "(\<exists>e. NewRequest lib (Method r) url None = Inl e \<and> res = Inl e \<and> st' = st)
       \<or> (\<exists>req. NewRequest lib (Method r) url None = Inr req
              \<and> calls st' = calls st @ [(forwardHeaders r req, res)])"
proof (cases "NewRequest lib (Method r) url None")
  case (Inl e)
  with assms show ?thesis by (simp add: tryRequest_def)
next
  case (Inr req)
  with assms have "client_Do Do (mclient p) (forwardHeaders r req) st = (res, st')"
    by (simp add: tryRequest_def)
  from client_Do_calls [OF this] Inr show ?thesis by simp
qed

lemma tryMirrors_trace:
  assumes "tryMirrors lib Do p t r ms resp st = (resp', st')"
  shows "\<exists>new. calls st' = calls st @ new
       \<and> length new \<le> length (List.map_filter (mirrorRequest lib r t) ms)
       \<and> map fst new = take (length new) (List.map_filter (mirrorRequest lib r t) ms)
       \<and> (\<forall>c\<in>set (butlast new). notFoundOrFailed (snd c))
       \<and> (if new \<noteq> [] \<and> \<not> notFoundOrFailed (snd (last new)) then snd (last new) = Inr resp'
          else resp' = resp \<and> length new = length (List.map_filter (mirrorRequest lib r t) ms))"
  using assms
proof (induction ms arbitrary: st)
  case Nil
  then show ?case by (simp add: List.map_filter_simps)
next
  case (Cons m ms)
  let ?cands = "List.map_filter (mirrorRequest lib r t) ms"
  show ?case
  proof (cases "replaceHost lib t m")
    case (Inl e)
    then have mr: "mirrorRequest lib r t m = None" by (simp add: mirrorRequest_def)
    then have cs: "List.map_filter (mirrorRequest lib r t) (m # ms) = ?cands"
      by (simp add: List.map_filter_simps)
    from Cons.prems Inl have "tryMirrors lib Do p t r ms resp st = (resp', st')" by simp
    from Cons.IH [OF this] show ?thesis unfolding cs .
  next
    case (Inr url)
    obtain res st1 where tr: "tryRequest lib Do p url r st = (res, st1)"
      by (cases "tryRequest lib Do p url r st") auto
    from tryRequest_cases [OF tr] show ?thesis
    proof (elim disjE exE conjE)
      fix e assume n: "NewRequest lib (Method r) url None = Inl e" and "res = Inl e" "st1 = st"
      then have mr: "mirrorRequest lib r t m = None" using Inr by (simp add: mirrorRequest_def)
      from Cons.prems Inr tr \<open>res = Inl e\<close> \<open>st1 = st\<close>
      have "tryMirrors lib Do p t r ms resp st = (resp', st')" by simp
      moreover have cs: "List.map_filter (mirrorRequest lib r t) (m # ms) = ?cands"
        using mr by (simp add: List.map_filter_simps)
      ultimately show ?thesis using Cons.IH [of st] unfolding cs by blast
    next
      fix req assume n: "NewRequest lib (Method r) url None = Inr req"
        and c1: "calls st1 = calls st @ [(forwardHeaders r req, res)]"
      let ?q = "forwardHeaders r req"
      have mr: "mirrorRequest lib r t m = Some ?q" using Inr n by (simp add: mirrorRequest_def)
      have cs: "List.map_filter (mirrorRequest lib r t) (m # ms) = ?q # ?cands"
        by (simp add: List.map_filter_simps mr)
      show ?thesis
      proof (cases "notFoundOrFailed res")
        case False
        then obtain mresp where res: "res = Inr mresp" and ne: "StatusCode mresp \<noteq> StatusNotFound"
          by (cases res) (auto simp: notFoundOrFailed_def)
        with Cons.prems Inr tr have "resp' = mresp" "st' = st1" by simp_all
        with c1 res False show ?thesis
          unfolding cs by (intro exI [of _ "[(?q, res)]"]) simp
      next
        case True
        with Cons.prems Inr tr have "tryMirrors lib Do p t r ms resp st1 = (resp', st')"
          by (cases res) (auto simp: notFoundOrFailed_def)
        from Cons.IH [OF this] obtain new where
          a: "calls st' = calls st1 @ new"
          and b: "length new \<le> length ?cands"
          and c: "map fst new = take (length new) ?cands"
          and d: "\<forall>c\<in>set (butlast new). notFoundOrFailed (snd c)"
          and e: "if new \<noteq> [] \<and> \<not> notFoundOrFailed (snd (last new)) then snd (last new) = Inr resp'
                  else resp' = resp \<and> length new = length ?cands"
          by blast
        show ?thesis
          unfolding cs
        proof (intro exI [of _ "(?q, res) # new"] conjI)
          show "calls st' = calls st @ (?q, res) # new" using a c1 by simp
          show "length ((?q, res) # new) \<le> length (?q # ?cands)" using b by simp
          show "map fst ((?q, res) # new) = take (length ((?q, res) # new)) (?q # ?cands)"
            using c by simp
          show "\<forall>c\<in>set (butlast ((?q, res) # new)). notFoundOrFailed (snd c)"
            using d True by (cases "new = []") auto
          show "if (?q, res) # new \<noteq> [] \<and> \<not> notFoundOrFailed (snd (last ((?q, res) # new)))
                then snd (last ((?q, res) # new)) = Inr resp'
                else resp' = resp \<and> length ((?q, res) # new) = length (?q # ?cands)"
            using e True by (cases "new = []") auto
        qed
      qed
    qed
  qed
qed

lemma writeResponse_header:
  "wHeader (writeResponse w resp) = copyHeader (ResponseHeader resp) (wHeader w)"
  by (simp add: writeResponse_def io_Copy_def Write_def WriteHeader_def Let_def)

lemma writeResponse_status:
  "wStatus w = None \<Longrightarrow> wStatus (writeResponse w resp) = Some (StatusCode resp)"
  by (simp add: writeResponse_def io_Copy_def Write_def WriteHeader_def Let_def)

lemma Close_fields:
  "StatusCode (Close resp) = StatusCode resp" "ResponseHeader (Close resp) = ResponseHeader resp"
  by (simp_all add: Close_def)

lemma ServeHTTP_mirrors_primary_not_found:
  assumes "tryRequest lib Do p (mirrorTargetURL lib r) r st = (Inr resp, st1)"
    and "StatusCode resp = StatusNotFound" and "mirrors p \<noteq> []"
  shows "\<exists>resp' st'. tryMirrors lib Do p (mirrorTargetURL lib r) r (mirrors p) (Close resp) st1 = (resp', st')
           \<and> ServeHTTP_mirrors lib Do p w r st = (writeResponse w resp', st')"
  using assms
  by (cases "tryMirrors lib Do p (mirrorTargetURL lib r) r (mirrors p) (Close resp) st1")
     (simp add: ServeHTTP_mirrors_def Let_def)

lemma newCalls_append: "calls st' = calls st @ xs \<Longrightarrow> newCalls st st' = xs"
  by (simp add: newCalls_def)

lemma mirrorRequest_Some:
  "mirrorRequest lib r t m = Some q \<Longrightarrow>
     \<exists>url req. NewRequest lib (Method r) url None = Inr req \<and> q = forwardHeaders r req"
  by (auto simp: mirrorRequest_def split: sum.splits)

lemma tryMirrors_requests:
  assumes "tryMirrors lib Do p t r ms resp st = (resp', st')" and "c \<in> set (newCalls st st')"
  shows "\<exists>url req. NewRequest lib (Method r) url None = Inr req \<and> fst c = forwardHeaders r req"
proof -
  from tryMirrors_trace [OF assms(1)] obtain new where
    a: "calls st' = calls st @ new"
    and c: "map fst new = take (length new) (List.map_filter (mirrorRequest lib r t) ms)"
    by blast
  from a assms(2) have "c \<in> set new" by (simp add: newCalls_def)
  then have "fst c \<in> set (map fst new)" by simp
  then have "fst c \<in> set (List.map_filter (mirrorRequest lib r t) ms)"
    unfolding c by (rule in_set_takeD)
  then obtain m where "mirrorRequest lib r t m = Some (fst c)"
    by (auto simp: List.map_filter_def)
  then show ?thesis by (rule mirrorRequest_Some)
qed

lemma tryMirrors_calls:
  assumes "tryMirrors lib Do p t r ms resp st = (resp', st')"
  shows "calls st' = calls st @ newCalls st st'"
proof -
  from tryMirrors_trace [OF assms(1)] obtain new where "calls st' = calls st @ new" by blast
  then show ?thesis by (simp add: newCalls_def)
qed

lemma ServeHTTP_mirrors_requests:
  assumes "c \<in> set (newCalls st (snd (ServeHTTP_mirrors lib Do p w r st)))"
  shows "\<exists>url req. NewRequest lib (Method r) url None = Inr req \<and> fst c = forwardHeaders r req"
proof -
  let ?t = "mirrorTargetURL lib r"
  obtain res st1 where tr: "tryRequest lib Do p ?t r st = (res, st1)"
    by (cases "tryRequest lib Do p ?t r st") auto
  from tryRequest_cases [OF tr] show ?thesis
  proof (elim disjE exE conjE)
    fix e assume "res = Inl e" "st1 = st"
    with tr have "snd (ServeHTTP_mirrors lib Do p w r st) = st"
      by (simp add: ServeHTTP_mirrors_def Let_def)
    with assms show ?thesis by (simp add: newCalls_def)
  next
    fix req assume n: "NewRequest lib (Method r) ?t None = Inr req"
      and c1: "calls st1 = calls st @ [(forwardHeaders r req, res)]"
    show ?thesis
    proof (cases "\<exists>resp. res = Inr resp \<and> StatusCode resp = StatusNotFound \<and> mirrors p \<noteq> []")
      case False
      with tr have "snd (ServeHTTP_mirrors lib Do p w r st) = st1"
        by (cases res) (auto simp: ServeHTTP_mirrors_def Let_def)
      with assms c1 have "c = (forwardHeaders r req, res)" by (simp add: newCalls_def)
      with n show ?thesis by auto
    next
      case True
      then obtain resp where r1: "res = Inr resp" "StatusCode resp = StatusNotFound" "mirrors p \<noteq> []"
        by blast
      from ServeHTTP_mirrors_primary_not_found [OF tr [unfolded r1(1)] r1(2,3), of w]
      obtain resp' st' where
        tm: "tryMirrors lib Do p ?t r (mirrors p) (Close resp) st1 = (resp', st')"
        and sv: "ServeHTTP_mirrors lib Do p w r st = (writeResponse w resp', st')"
        by blast
      from tryMirrors_calls [OF tm] c1
      have "calls st' = calls st @ ((forwardHeaders r req, res) # newCalls st1 st')"
        by simp
      then have "newCalls st st' = (forwardHeaders r req, res) # newCalls st1 st'"
        by (rule newCalls_append)
      with assms sv have "c = (forwardHeaders r req, res) \<or> c \<in> set (newCalls st1 st')"
        by simp
      then show ?thesis
      proof
        assume "c = (forwardHeaders r req, res)"
        with n show ?thesis by auto
      next
        assume "c \<in> set (newCalls st1 st')"
        with tm show ?thesis by (rule tryMirrors_requests)
      qed
    qed
  qed
qed

lemma ServeHTTP_mirrors_response:
  assumes c: "c \<in> set (newCalls st (snd (ServeHTTP_mirrors lib Do p w r st)))"
    and s: "snd c = Inr resp"
    and k: "StatusCode resp \<noteq> StatusNotFound
            \<or> c = hd (newCalls st (snd (ServeHTTP_mirrors lib Do p w r st)))
              \<and> (\<forall>d\<in>set (newCalls st (snd (ServeHTTP_mirrors lib Do p w r st))).
                    notFoundOrFailed (snd d))"
  shows "wHeader (fst (ServeHTTP_mirrors lib Do p w r st))
           = copyHeader (ResponseHeader resp) (wHeader w)"
proof -
  let ?t = "mirrorTargetURL lib r"
  obtain res st1 where tr: "tryRequest lib Do p ?t r st = (res, st1)"
    by (cases "tryRequest lib Do p ?t r st") auto
  from tryRequest_cases [OF tr] show ?thesis
  proof (elim disjE exE conjE)
    fix e assume "res = Inl e" "st1 = st"
    with tr have "snd (ServeHTTP_mirrors lib Do p w r st) = st"
      by (simp add: ServeHTTP_mirrors_def Let_def)
    with c show ?thesis by (simp add: newCalls_def)
  next
    fix req assume c1: "calls st1 = calls st @ [(forwardHeaders r req, res)]"
    show ?thesis
    proof (cases "\<exists>presp. res = Inr presp \<and> StatusCode presp = StatusNotFound \<and> mirrors p \<noteq> []")
      case False
      with tr have sv: "ServeHTTP_mirrors lib Do p w r st
                          = (case res of Inl err \<Rightarrow> http_Error w ''Failed to reach target server'' StatusBadGateway
                             | Inr presp \<Rightarrow> writeResponse w presp, st1)"
        by (cases res) (auto simp: ServeHTTP_mirrors_def Let_def)
      with c c1 have "c = (forwardHeaders r req, res)" by (simp add: newCalls_def)
      with s have "res = Inr resp" by simp
      with sv show ?thesis by (simp add: writeResponse_header)
    next
      case True
      then obtain presp where r1: "res = Inr presp" "StatusCode presp = StatusNotFound" "mirrors p \<noteq> []"
        by blast
      from ServeHTTP_mirrors_primary_not_found [OF tr [unfolded r1(1)] r1(2,3), of w]
      obtain resp' st' where
        tm: "tryMirrors lib Do p ?t r (mirrors p) (Close presp) st1 = (resp', st')"
        and sv: "ServeHTTP_mirrors lib Do p w r st = (writeResponse w resp', st')"
        by blast
      from tryMirrors_trace [OF tm] obtain new where
        a: "calls st' = calls st1 @ new"
        and d: "\<forall>c\<in>set (butlast new). notFoundOrFailed (snd c)"
        and e: "if new \<noteq> [] \<and> \<not> notFoundOrFailed (snd (last new)) then snd (last new) = Inr resp'
                else resp' = Close presp
                     \<and> length new = length (List.map_filter (mirrorRequest lib r ?t) (mirrors p))"
        by blast
      from a c1 have "calls st' = calls st @ ((forwardHeaders r req, res) # new)" by simp
      then have n: "newCalls st st' = (forwardHeaders r req, res) # new"
        by (rule newCalls_append)
      from k show ?thesis
      proof
        assume ok: "StatusCode resp \<noteq> StatusNotFound"
        with s r1 have "c \<noteq> (forwardHeaders r req, res)" by auto
        with c sv n have cn: "c \<in> set new" by simp
        have nf: "\<not> notFoundOrFailed (snd c)" using s ok by (simp add: notFoundOrFailed_def)
        with d have "c \<notin> set (butlast new)" by blast
        with cn have "new \<noteq> [] \<and> c = last new"
          by (metis append_butlast_last_id empty_iff list.set(1) rotate1.simps(2) set_ConsD set_rotate1)
        with e nf s have "resp' = resp" by simp
        with sv show ?thesis by (simp add: writeResponse_header)
      next
        assume all: "c = hd (newCalls st (snd (ServeHTTP_mirrors lib Do p w r st)))
              \<and> (\<forall>d\<in>set (newCalls st (snd (ServeHTTP_mirrors lib Do p w r st))).
                    notFoundOrFailed (snd d))"
        with sv n have ce: "c = (forwardHeaders r req, res)"
          and an: "\<forall>d\<in>set new. notFoundOrFailed (snd d)" by simp_all
        from an have "\<not> (new \<noteq> [] \<and> \<not> notFoundOrFailed (snd (last new)))"
          by (cases "new = []") auto
        with e have "resp' = Close presp" by presburger
        moreover from ce s r1 have "presp = resp" by simp
        ultimately show ?thesis using sv by (simp add: writeResponse_header Close_fields)
      qed
    qed
  qed
qed

lemma ServeHTTP_requests:
  assumes "c \<in> set (newCalls st (snd (ServeHTTP lib Do p w r st)))"
  shows "\<exists>url req. NewRequest lib (Method r) url (Body r) = Inr req \<and> fst c = forwardHeaders r req
           \<and> (case snd c of
                 Inl err \<Rightarrow> True
               | Inr resp \<Rightarrow> fst (ServeHTTP lib Do p w r st) = writeResponse w resp)"
  using ServeHTTP_calls [of st lib Do p w r]
proof (elim disjE exE conjE)
  assume "newCalls st (snd (ServeHTTP lib Do p w r st)) = []"
  with assms show ?thesis by simp
next
  fix targetURL proxyReq res
  assume n: "NewRequest lib (Method r) targetURL (Body r) = Inr proxyReq"
    and c: "newCalls st (snd (ServeHTTP lib Do p w r st)) = [(forwardHeaders r proxyReq, res)]"
    and w: "case res of
              Inl err \<Rightarrow> fst (ServeHTTP lib Do p w r st)
                           = http_Error w ''Failed to reach target server'' StatusBadGateway
            | Inr resp \<Rightarrow> fst (ServeHTTP lib Do p w r st) = writeResponse w resp"
  from assms c have e: "c = (forwardHeaders r proxyReq, res)" by simp
  have "case snd c of Inl err \<Rightarrow> True
        | Inr resp \<Rightarrow> fst (ServeHTTP lib Do p w r st) = writeResponse w resp"
    using w unfolding e by (cases res) simp_all
  with n e show ?thesis by auto
qed

text \<open>The functions that serve requests do not consult the pattern compiler.\<close>

lemma url_Parse_Compile: "url_Parse (lib\<lparr> regexp_Compile := compile \<rparr>) = url_Parse lib"
  by simp

lemma URL_String_Compile: "URL_String (lib\<lparr> regexp_Compile := compile \<rparr>) = URL_String lib"
  by (rule ext) (simp add: URL_String_def Let_def cong: if_cong)

lemma NewRequest_Compile: "NewRequest (lib\<lparr> regexp_Compile := compile \<rparr>) = NewRequest lib"
  unfolding NewRequest_def url_Parse_Compile by (rule refl)

lemma findMapping_Compile: "findMapping (lib\<lparr> regexp_Compile := compile \<rparr>) = findMapping lib"
  by (intro ext) (simp add: findMapping_def)

lemma buildTargetURL_Compile:
  "buildTargetURL (lib\<lparr> regexp_Compile := compile \<rparr>) = buildTargetURL lib"
  unfolding buildTargetURL_def findMapping_Compile URL_String_Compile url_Parse_Compile
  by (rule refl)

lemma ServeHTTP_Compile:
  "ServeHTTP (lib\<lparr> regexp_Compile := compile \<rparr>) Do p w r st = ServeHTTP lib Do p w r st"
  unfolding ServeHTTP_def buildTargetURL_Compile NewRequest_Compile by (rule refl)

subsection \<open>Evaluation of the examples\<close>

lemma example_unicode: "unicode_tables exampleLib = exampleUnicode"
  by (simp add: exampleLib_def)



lemma example_tokens:
  "isTokenByte CHR ''P''" "isTokenByte CHR ''O''" "isTokenByte CHR ''S''" "isTokenByte CHR ''T''"
  "isTokenByte CHR ''G''" "isTokenByte CHR ''E''"
  by code_simp+

lemma example_canonical:
  "CanonicalMIMEHeaderKey ''User-Agent'' = ''User-Agent''"
  "CanonicalMIMEHeaderKey ''X-Custom'' = ''X-Custom''"
  "CanonicalMIMEHeaderKey ''X-Served-By'' = ''X-Served-By''"
  "CanonicalMIMEHeaderKey ''Content-Type'' = ''Content-Type''"
  "CanonicalMIMEHeaderKey ''X-Test-Header'' = ''X-Test-Header''"
  by code_simp+

lemmas example_defs =
  ServeHTTP_mirrors_def ServeHTTP_def mirrorTargetURL_def tryRequest_def replaceHost_def
  NewRequest_def removeEmptyPort_def client_Do_def forwardHeaders_def URL_String_def
  Header_Add_def Header_Set_def header_values_def Header_Values_def
  writeResponse_def WriteHeader_def Write_def io_Copy_def Close_def
  StatusNotFound_def newCalls_def notFoundOrFailed_def mirrorRequest_def List.map_filter_simps
  exampleLib_def exampleParse_def exampleURL_def zeroURL_def exampleTransport_def
  exampleProxyRequest_def exampleRequest_def exampleMirrors_def exampleMirrorProxy_def
  exampleTarget_def NewMirrorProxy_def emptyNet_def emptyWriter_def
  examplePrimary404_def exampleMirror404_def exampleMirror200_def exampleDefault200_def exampleSingleMirror_def
  example_tokens example_canonical canonical_XFF Let_def

lemma example_target: "mirrorTargetURL exampleLib exampleProxyRequest = exampleTarget"
  by (simp add: example_defs)

lemma example_primary:
  "fst (tryRequest exampleLib exampleTransport exampleMirrorProxy exampleTarget exampleProxyRequest emptyNet)
     = Inr examplePrimary404"
  by (simp add: example_defs)

lemma example_candidates:
  "map (\<lambda>q. Host (RequestURL q))
     (List.map_filter (mirrorRequest exampleLib exampleProxyRequest exampleTarget) (mirrors exampleMirrorProxy))
   = [''down.example'', ''mirror1.example'', ''mirror2.example'', ''mirror3.example'']"
  by (simp add: example_defs)

lemma example_attempts:
  "map (\<lambda>c. (Host (RequestURL (fst c)), notFoundOrFailed (snd c)))
     (newCalls
        (snd (tryRequest exampleLib exampleTransport exampleMirrorProxy exampleTarget exampleProxyRequest emptyNet))
        (snd (ServeHTTP_mirrors exampleLib exampleTransport exampleMirrorProxy emptyWriter exampleProxyRequest emptyNet)))
   = [(''down.example'', True), (''mirror1.example'', True), (''mirror2.example'', False)]"
  by (simp add: example_defs)

lemma example_last:
  "snd (last (newCalls
        (snd (tryRequest exampleLib exampleTransport exampleMirrorProxy exampleTarget exampleProxyRequest emptyNet))
        (snd (ServeHTTP_mirrors exampleLib exampleTransport exampleMirrorProxy emptyWriter exampleProxyRequest emptyNet))))
   = Inr exampleMirror200"
  by (simp add: example_defs)

lemma example_written:
  "writeResponse emptyWriter exampleMirror200
     = \<lparr> wHeader = [(''X-Served-By'', [''mirror2''])], wStatus = Some 200, wBody = ''found on mirror'' \<rparr>"
  by (simp add: example_defs)

lemma all_of_map: "map f xs = ys \<Longrightarrow> list_all P ys \<Longrightarrow> \<forall>x\<in>set xs. P (f x)"
  by (auto simp: list_all_iff)

lemma example_single_primary:
  "fst (tryRequest exampleLib exampleTransport exampleSingleMirror exampleTarget exampleProxyRequest emptyNet)
     = Inr examplePrimary404"
  by (simp add: example_defs)

lemma example_single_attempts:
  "map (\<lambda>c. snd c)
     (newCalls
        (snd (tryRequest exampleLib exampleTransport exampleSingleMirror exampleTarget exampleProxyRequest emptyNet))
        (snd (ServeHTTP_mirrors exampleLib exampleTransport exampleSingleMirror emptyWriter exampleProxyRequest emptyNet)))
   = [Inr exampleMirror404]"
  by (simp add: example_defs)

lemma example_single_result:
  "fst (ServeHTTP_mirrors exampleLib exampleTransport exampleSingleMirror emptyWriter exampleProxyRequest emptyNet)
     = \<lparr> wHeader = [(''X-Served-By'', [''primary''])], wStatus = Some 404, wBody = [] \<rparr>"
  by (simp add: example_defs)

lemma example_single_last:
  "snd (last (calls (snd (ServeHTTP_mirrors exampleLib exampleTransport exampleSingleMirror emptyWriter
                            exampleProxyRequest emptyNet))))
     = Inr exampleMirror404"
  by (simp add: example_defs)

lemma map_constant: "\<forall>c\<in>set xs. f c = v \<Longrightarrow> map f xs = replicate (length xs) v"
  by (induction xs) simp_all

lemma example_no_match:
  "findMapping_loop exampleUnicode (compiledMappings exampleProxy) ''/some/path?key=value'' = ([], False)"
  by code_simp

lemma example_no_match_x:
  "findMapping_loop exampleUnicode (compiledMappings exampleProxy) ''/x'' = ([], False)"
  by code_simp

lemma example_match_query:
  "findMapping_loop exampleUnicode (compiledMappings exampleProxy) ''/x?next=/test/7''
     = (''/x?next=https://mapped.com/item/7'', True)"
  by code_simp

lemma example_defaultHost: "defaultHost exampleProxy = ''https://default.com''"
  by (simp add: exampleProxy_def)

lemma example_build:
  "buildTargetURL exampleLib exampleProxy (exampleRequest ''/some/path'' ''key=value'' body)
     = Inr ''https://default.com/some/path?key=value''"
  by (simp add: buildTargetURL_def findMapping_def example_no_match example_defaultHost example_defs)

lemma example_build_x:
  "buildTargetURL exampleLib exampleProxy (exampleRequest ''/x'' [] body) = Inr ''https://default.com/x''"
  by (simp add: buildTargetURL_def findMapping_def example_no_match_x example_defaultHost example_defs)

lemma example_build_query:
  "buildTargetURL exampleLib (exampleProxy\<lparr> defaultHost := host \<rparr>)
     (exampleRequest ''/x'' ''next=/test/7'' body) = Inr ''/x?next=https://mapped.com/item/7''"
  by (simp add: buildTargetURL_def findMapping_def example_match_query example_defs)

lemma example_serve_calls:
  "map (\<lambda>c. snd c)
     (newCalls emptyNet
        (snd (ServeHTTP exampleLib exampleTransport exampleProxy emptyWriter
                (exampleRequest ''/some/path'' ''key=value'' (Some ''payload'')) emptyNet)))
   = [Inr exampleDefault200]"
  unfolding ServeHTTP_def example_build
  by (simp add: exampleDefault200_def
        NewRequest_def removeEmptyPort_def client_Do_def forwardHeaders_def newCalls_def
        exampleLib_def exampleParse_def exampleURL_def zeroURL_def exampleTransport_def
        exampleRequest_def emptyNet_def example_tokens Let_def)

lemma example_mirror_calls:
  "length (newCalls emptyNet
             (snd (ServeHTTP_mirrors exampleLib exampleTransport exampleMirrorProxy emptyWriter
                     exampleProxyRequest emptyNet))) = 4"
  by (simp add: example_defs)
section \<open>Path mappings\<close>

text \<open>
  C10. When some mapping matches the path, \<^verbatim>\<open>findMapping\<close> returns the path in which
  every occurrence of the first matching pattern is replaced by the expanded template:
  the text before, between and after the occurrences is kept (\<open>splice\<close>), there is at
  least one occurrence, the occurrences follow one another without overlap, each of them
  is a match of the pattern, and every position at which a match starts is accounted for:
  an occurrence starts there or covers it, or the position lies inside the character at
  which an occurrence that ended before it was searched for.
\<close>

theorem findMapping_replaces_every_occurrence:
  assumes "compiledMappings p = pre @ m # post"
    and "\<forall>x\<in>set pre. \<not> MatchString (regex x) path"
    and "MatchString (regex m) path"
  shows "findMapping lib p path
           = (splice (unicode_tables lib) (regex m) path (to m) 0
                (replacedOccurrences (regex m) path (to m)), True)
         \<and> replacedOccurrences (regex m) path (to m) \<noteq> []
         \<and> ordered 0 (replacedOccurrences (regex m) path (to m))
         \<and> (\<forall>a\<in>set (replacedOccurrences (regex m) path (to m)).
               isMatch (regex m) path
                 (if CHR ''$'' \<in> set (to m) then numSubexp (regex m) + 1 else 1) a)
         \<and> (\<forall>q. q \<le> length path \<and> matchAt (regex m) path q \<noteq> None
               \<longrightarrow> accountedFor path (replacedOccurrences (regex m) path (to m)) q)"
proof -
  have "findMapping lib p path = (ReplaceAllString (unicode_tables lib) (regex m) path (to m), True)"
    unfolding findMapping_def assms(1) using assms(2,3) by (rule findMapping_loop_first)
  moreover have "ordered 0 (replacedOccurrences (regex m) path (to m))"
    unfolding replacedOccurrences_def by (rule occurrences_ordered) simp
  moreover have "\<forall>a\<in>set (replacedOccurrences (regex m) path (to m)).
               isMatch (regex m) path
                 (if CHR ''$'' \<in> set (to m) then numSubexp (regex m) + 1 else 1) a"
    unfolding replacedOccurrences_def using occurrences_isMatch by blast
  moreover have "accountedFor path (replacedOccurrences (regex m) path (to m)) q"
    if "q \<le> length path \<and> matchAt (regex m) path q \<noteq> None" for q
    unfolding replacedOccurrences_def
    using that occurrences_complete [of "if CHR ''$'' \<in> set (to m) then numSubexp (regex m) + 1 else 1"
                                        0 q path "regex m"]
    by simp
  ultimately show ?thesis
    using MatchString_occurrences [OF assms(3)] by (simp add: ReplaceAllString_splice)
qed

theorem findMapping_replaces_every_occurrence_witness:
  "compiledMappings exampleProxy
     = [\<lparr> regex = watchdog, to = ''https://host/$1/watchdog-$2.zip'' \<rparr>]
       @ \<lparr> regex = testItem, to = ''https://mapped.com/item/$1'' \<rparr> # []
   \<and> \<not> MatchString watchdog ''/a/test/12/b/test/345''
   \<and> MatchString testItem ''/a/test/12/b/test/345''
   \<and> replacedOccurrences testItem ''/a/test/12/b/test/345'' ''https://mapped.com/item/$1''
       = [[(2, 10), (8, 10)], [(12, 21), (18, 21)]]
   \<and> findMapping exampleLib exampleProxy ''/a/test/12/b/test/345''
       = (''/ahttps://mapped.com/item/12/bhttps://mapped.com/item/345'', True)
   \<and> compiledMappings exampleDashProxy = [] @ \<lparr> regex = manyX, to = ''-'' \<rparr> # []
   \<and> MatchString manyX [CHR ''/'', CHR 0xC3, CHR 0xA9]
   \<and> map (matchAt manyX [CHR ''/'', CHR 0xC3, CHR 0xA9]) [0, 1, 2, 3]
       = [Some (0, []), Some (0, []), Some (0, []), Some (0, [])]
   \<and> replacedOccurrences manyX [CHR ''/'', CHR 0xC3, CHR 0xA9] ''-'' = [[(0, 0)], [(1, 1)], [(3, 3)]]
   \<and> isMatch manyX [CHR ''/'', CHR 0xC3, CHR 0xA9] 1 [(3, 3)]
   \<and> accountedFor [CHR ''/'', CHR 0xC3, CHR 0xA9] [[(0, 0)], [(1, 1)], [(3, 3)]] 2
   \<and> findMapping exampleLib exampleDashProxy [CHR ''/'', CHR 0xC3, CHR 0xA9]
       = ([CHR ''-'', CHR ''/'', CHR ''-'', CHR 0xC3, CHR 0xA9, CHR ''-''], True)"
proof -
  let ?wd = "\<lparr> regex = watchdog, to = ''https://host/$1/watchdog-$2.zip'' \<rparr>"
  let ?ti = "\<lparr> regex = testItem, to = ''https://mapped.com/item/$1'' \<rparr>"
  let ?xs = "\<lparr> regex = manyX, to = ''-'' \<rparr>"
  let ?e = "[CHR ''/'', CHR 0xC3, CHR 0xA9]"
  have h1: "compiledMappings exampleProxy = [?wd] @ ?ti # []"
    by (simp add: exampleProxy_def)
  have n: "\<not> MatchString watchdog ''/a/test/12/b/test/345''" by code_simp
  then have h2: "\<forall>x\<in>set [?wd]. \<not> MatchString (regex x) ''/a/test/12/b/test/345''" by simp
  have m: "MatchString testItem ''/a/test/12/b/test/345''" by code_simp
  then have h3: "MatchString (regex ?ti) ''/a/test/12/b/test/345''" by simp
  have o: "replacedOccurrences testItem ''/a/test/12/b/test/345'' ''https://mapped.com/item/$1''
             = [[(2, 10), (8, 10)], [(12, 21), (18, 21)]]"
    by code_simp
  have s: "splice exampleUnicode testItem ''/a/test/12/b/test/345'' ''https://mapped.com/item/$1'' 0
             [[(2, 10), (8, 10)], [(12, 21), (18, 21)]]
           = ''/ahttps://mapped.com/item/12/bhttps://mapped.com/item/345''"
    by code_simp
  from findMapping_replaces_every_occurrence [OF h1 h2 h3, of exampleLib]
  have "findMapping exampleLib exampleProxy ''/a/test/12/b/test/345''
          = (splice exampleUnicode testItem ''/a/test/12/b/test/345'' ''https://mapped.com/item/$1'' 0
               (replacedOccurrences testItem ''/a/test/12/b/test/345''
                  ''https://mapped.com/item/$1''), True)"
    unfolding example_unicode by (simp del: splice.simps)
  then have r1: "findMapping exampleLib exampleProxy ''/a/test/12/b/test/345''
          = (''/ahttps://mapped.com/item/12/bhttps://mapped.com/item/345'', True)"
    unfolding o s .
  have g1: "compiledMappings exampleDashProxy = [] @ ?xs # []"
    by (simp add: exampleDashProxy_def)
  have g2: "\<forall>x\<in>set []. \<not> MatchString (regex x) ?e" by simp
  have ma: "map (matchAt manyX ?e) [0, 1, 2, 3]
              = [Some (0, []), Some (0, []), Some (0, []), Some (0, [])]"
    by (simp add: manyX_def rx_compile_def)
  then have mx: "MatchString manyX ?e"
    unfolding MatchString_iff by (intro exI [of _ 0]) simp
  then have g3: "MatchString (regex ?xs) ?e" by simp
  from ma have m2: "2 \<le> length ?e \<and> matchAt (regex ?xs) ?e 2 \<noteq> None" by simp
  have o2: "replacedOccurrences manyX ?e ''-'' = [[(0, 0)], [(1, 1)], [(3, 3)]]"
    by (simp add: replacedOccurrences_def occurrences.simps advance_def doExecute_def manyX_def
          rx_compile_def byte_def Let_def)
  have s2: "splice exampleUnicode manyX ?e ''-'' 0 [[(0, 0)], [(1, 1)], [(3, 3)]]
              = [CHR ''-'', CHR ''/'', CHR ''-'', CHR 0xC3, CHR 0xA9, CHR ''-'']"
    by (simp add: slice_def expand_no_dollar)
  note t = findMapping_replaces_every_occurrence [OF g1 g2 g3, of exampleLib]
  from t have "findMapping exampleLib exampleDashProxy ?e
          = (splice exampleUnicode manyX ?e ''-'' 0 (replacedOccurrences manyX ?e ''-''), True)"
    unfolding example_unicode by (simp del: splice.simps)
  then have r2: "findMapping exampleLib exampleDashProxy ?e
          = ([CHR ''-'', CHR ''/'', CHR ''-'', CHR 0xC3, CHR 0xA9, CHR ''-''], True)"
    unfolding o2 s2 .
  from t m2 have "accountedFor ?e (replacedOccurrences (regex ?xs) ?e (to ?xs)) 2" by blast
  then have ac: "accountedFor ?e [[(0, 0)], [(1, 1)], [(3, 3)]] 2"
    using o2 by simp
  from t have "\<forall>a\<in>set (replacedOccurrences (regex ?xs) ?e (to ?xs)).
                 isMatch (regex ?xs) ?e
                   (if CHR ''$'' \<in> set (to ?xs) then numSubexp (regex ?xs) + 1 else 1) a"
    by blast
  then have im: "isMatch manyX ?e 1 [(3, 3)]"
    using o2 by simp
  from h1 n m o r1 g1 mx ma o2 im ac r2 show ?thesis by blast
qed


text \<open>
  C2, as amended. The patterns are evaluated against the request path followed, when the
  query is not empty, by \<^verbatim>\<open>?\<close> and the raw query (the path alone otherwise); a
  mapping is found exactly when one of the patterns matches at some offset of that
  string, and then its result is the target.
\<close>

theorem buildTargetURL_matches_path_and_query:
  "(snd (findMapping lib p (originalPath r))
      \<longleftrightarrow> (\<exists>m\<in>set (compiledMappings p). \<exists>k\<le>length (originalPath r).
             matchAt (regex m) (originalPath r) k \<noteq> None))
   \<and> (snd (findMapping lib p (originalPath r))
        \<longrightarrow> buildTargetURL lib p r = Inr (fst (findMapping lib p (originalPath r))))
   \<and> (RawQuery (RequestURL r) = [] \<longrightarrow> originalPath r = Path (RequestURL r))
   \<and> (RawQuery (RequestURL r) \<noteq> []
        \<longrightarrow> originalPath r = Path (RequestURL r) @ ''?'' @ RawQuery (RequestURL r))"
proof -
  have "snd (findMapping lib p (originalPath r))
      \<longleftrightarrow> (\<exists>m\<in>set (compiledMappings p). \<exists>k\<le>length (originalPath r).
             matchAt (regex m) (originalPath r) k \<noteq> None)"
    unfolding findMapping_def findMapping_loop_found_iff MatchString_iff ..
  moreover have "snd (findMapping lib p (originalPath r))
        \<longrightarrow> buildTargetURL lib p r = Inr (fst (findMapping lib p (originalPath r)))"
    unfolding buildTargetURL_originalPath
    by (cases "findMapping lib p (originalPath r)") simp
  ultimately show ?thesis by (simp add: originalPath_def)
qed

theorem buildTargetURL_matches_path_and_query_witness:
  "originalPath (exampleRequest ''/x'' ''next=/test/7'' None) = ''/x?next=/test/7''
   \<and> matchAt testItem ''/x?next=/test/7'' 8 = Some (7, [(14, 15)])
   \<and> snd (findMapping exampleLib exampleProxy ''/x?next=/test/7'')
   \<and> buildTargetURL exampleLib exampleProxy (exampleRequest ''/x'' ''next=/test/7'' None)
       = Inr ''/x?next=https://mapped.com/item/7''"
proof -
  let ?r = "exampleRequest ''/x'' ''next=/test/7'' None"
  have o: "originalPath ?r = ''/x?next=/test/7''"
    by (simp add: originalPath_def exampleRequest_def exampleURL_def zeroURL_def)
  have m: "matchAt testItem ''/x?next=/test/7'' 8 = Some (7, [(14, 15)])" by code_simp
  have f: "findMapping exampleLib exampleProxy ''/x?next=/test/7'' = (''/x?next=https://mapped.com/item/7'', True)"
    unfolding findMapping_def example_unicode by (rule example_match_query)
  then have s: "snd (findMapping exampleLib exampleProxy (originalPath ?r))" by (simp add: o)
  from buildTargetURL_matches_path_and_query [of exampleLib exampleProxy ?r] s
  have "buildTargetURL exampleLib exampleProxy ?r = Inr (fst (findMapping exampleLib exampleProxy (originalPath ?r)))"
    by blast
  then have "buildTargetURL exampleLib exampleProxy ?r = Inr ''/x?next=https://mapped.com/item/7''"
    by (simp add: o f)
  with o m f show ?thesis by simp
qed

text \<open>
  C2 as stated fails: two requests with the same path, one without a query and one whose
  query contains \<^verbatim>\<open>/test/7\<close>, are resolved differently, the first by the default host
  and the second by the mapping \<^verbatim>\<open>/test/(\d+)\<close>.
\<close>

theorem buildTargetURL_query_counterexample:
  "Path (RequestURL (exampleRequest ''/x'' ''next=/test/7'' None))
     = Path (RequestURL (exampleRequest ''/x'' [] None))
   \<and> \<not> MatchString watchdog ''/x'' \<and> \<not> MatchString testItem ''/x''
   \<and> buildTargetURL exampleLib exampleProxy (exampleRequest ''/x'' [] None)
       = Inr ''https://default.com/x''
   \<and> buildTargetURL exampleLib exampleProxy (exampleRequest ''/x'' ''next=/test/7'' None)
       = Inr ''/x?next=https://mapped.com/item/7''"
proof -
  have a: "\<not> MatchString watchdog ''/x''" by code_simp
  have b: "\<not> MatchString testItem ''/x''" by code_simp
  have c: "buildTargetURL exampleLib exampleProxy (exampleRequest ''/x'' [] None)
       = Inr ''https://default.com/x''" by (rule example_build_x)
  have d: "buildTargetURL exampleLib exampleProxy (exampleRequest ''/x'' ''next=/test/7'' None)
       = Inr ''/x?next=https://mapped.com/item/7''"
    using example_build_query [of "''https://default.com''" None] by (simp add: exampleProxy_def)
  from a b c d show ?thesis by (simp add: exampleRequest_def exampleURL_def)
qed

section \<open>Outbound requests\<close>

text \<open>
  C3, as amended. Every request sent while serving an inbound request carries the method
  of the inbound request (\<^verbatim>\<open>GET\<close> when it is empty, as \<^verbatim>\<open>http.NewRequest\<close> has it). The
  mapping proxy passes the body of the inbound request on; the mirror proxy builds every
  request, to the primary target and to each mirror, with no body.
\<close>

theorem outbound_method_and_body:
  "(\<forall>c\<in>set (newCalls st (snd (ServeHTTP lib Do p w r st))).
      Method (fst c) = (if Method r = [] then ''GET'' else Method r) \<and> Body (fst c) = Body r)
   \<and> (\<forall>c\<in>set (newCalls st (snd (ServeHTTP_mirrors lib Do mp w r st))).
      Method (fst c) = (if Method r = [] then ''GET'' else Method r) \<and> Body (fst c) = None)"
proof -
  have a: "Method (fst c) = (if Method r = [] then ''GET'' else Method r) \<and> Body (fst c) = Body r"
    if "c \<in> set (newCalls st (snd (ServeHTTP lib Do p w r st)))" for c
  proof -
    from ServeHTTP_requests [OF that] obtain url req where
      "NewRequest lib (Method r) url (Body r) = Inr req" "fst c = forwardHeaders r req" by blast
    with NewRequest_fields [of lib "Method r" url "Body r" req] show ?thesis
      by (simp add: forwardHeaders_fields)
  qed
  have b: "Method (fst c) = (if Method r = [] then ''GET'' else Method r) \<and> Body (fst c) = None"
    if "c \<in> set (newCalls st (snd (ServeHTTP_mirrors lib Do mp w r st)))" for c
  proof -
    from ServeHTTP_mirrors_requests [OF that] obtain url req where
      "NewRequest lib (Method r) url None = Inr req" "fst c = forwardHeaders r req" by blast
    with NewRequest_fields [of lib "Method r" url None req] show ?thesis
      by (simp add: forwardHeaders_fields)
  qed
  from a b show ?thesis by blast
qed

theorem outbound_method_and_body_witness:
  "map (\<lambda>c. (Method (fst c), Body (fst c)))
         (newCalls emptyNet
            (snd (ServeHTTP exampleLib exampleTransport exampleProxy emptyWriter
                    (exampleRequest ''/some/path'' ''key=value'' (Some ''payload'')) emptyNet)))
       = [(''GET'', Some ''payload'')]
   \<and> map (\<lambda>c. (Method (fst c), Body (fst c)))
         (newCalls emptyNet
            (snd (ServeHTTP_mirrors exampleLib exampleTransport exampleMirrorProxy
                    emptyWriter exampleProxyRequest emptyNet)))
       = [(''POST'', None), (''POST'', None), (''POST'', None), (''POST'', None)]"
proof -
  let ?r = "exampleRequest ''/some/path'' ''key=value'' (Some ''payload'')"
  let ?a = "newCalls emptyNet (snd (ServeHTTP exampleLib exampleTransport exampleProxy emptyWriter ?r emptyNet))"
  let ?b = "newCalls emptyNet
              (snd (ServeHTTP_mirrors exampleLib exampleTransport exampleMirrorProxy
                      emptyWriter exampleProxyRequest emptyNet))"
  have "length (map (\<lambda>c. snd c) ?a) = 1" unfolding example_serve_calls by simp
  then have la: "length ?a = 1" by simp
  have lb: "length ?b = 4" by (rule example_mirror_calls)
  have ra: "Method ?r = ''GET''" "Body ?r = Some ''payload''" by (simp_all add: exampleRequest_def)
  have rb: "Method exampleProxyRequest = ''POST''" by (simp add: exampleProxyRequest_def)
  from outbound_method_and_body
         [of emptyNet exampleLib exampleTransport exampleProxy emptyWriter ?r]
  have "\<forall>c\<in>set ?a. (Method (fst c), Body (fst c)) = (''GET'', Some ''payload'')"
    by (simp add: ra)
  then have a: "map (\<lambda>c. (Method (fst c), Body (fst c))) ?a = replicate (length ?a) (''GET'', Some ''payload'')"
    by (rule map_constant)
  from outbound_method_and_body
         [of emptyNet exampleLib exampleTransport _ emptyWriter exampleProxyRequest exampleMirrorProxy]
  have "\<forall>c\<in>set ?b. (Method (fst c), Body (fst c)) = (''POST'', None)"
    by (simp add: rb)
  then have b: "map (\<lambda>c. (Method (fst c), Body (fst c))) ?b = replicate (length ?b) (''POST'', None)"
    by (rule map_constant)
  show ?thesis
    unfolding a b la lb by (simp add: numeral_eq_Suc)
qed

text \<open>
  C3 as stated fails for the proxy with mirrors: \<^verbatim>\<open>tryRequest\<close> calls
  \<^verbatim>\<open>http.NewRequest(r.Method, targetURL, nil)\<close>, so a \<^verbatim>\<open>POST\<close> with the body
  \<^verbatim>\<open>payload\<close> reaches the primary target and the mirrors without its body.
\<close>

theorem outbound_method_and_body_counterexample:
  "Body exampleProxyRequest = Some ''payload''
   \<and> map (\<lambda>c. Body (fst c))
         (calls (snd (ServeHTTP_mirrors exampleLib exampleTransport exampleMirrorProxy
                        emptyWriter exampleProxyRequest emptyNet)))
       = [None, None, None, None]"
  by (simp add: example_defs)
section \<open>Mirrors\<close>

text \<open>
  C4. When the primary target answers 404 and mirrors are configured, the requests sent
  after the primary one are those of an initial segment of the mirrors whose URL rewrite
  succeeds, in configured order (a mirror whose rewrite fails is not contacted). Every
  attempt but the last failed in transport or answered 404; when the last attempt
  answered with another status, that response is the one written to the client, and no
  later mirror is contacted; when every attempt failed or answered 404, every such
  mirror has been tried.
\<close>

theorem mirrors_tried_in_order:
  assumes "tryRequest lib Do p (mirrorTargetURL lib r) r st = (Inr resp, st1)"
    and "StatusCode resp = StatusNotFound" and "mirrors p \<noteq> []"
  shows "calls (snd (ServeHTTP_mirrors lib Do p w r st))
           = calls st1 @ newCalls st1 (snd (ServeHTTP_mirrors lib Do p w r st))
       \<and> length (newCalls st1 (snd (ServeHTTP_mirrors lib Do p w r st)))
           \<le> length (List.map_filter (mirrorRequest lib r (mirrorTargetURL lib r)) (mirrors p))
       \<and> map fst (newCalls st1 (snd (ServeHTTP_mirrors lib Do p w r st)))
           = take (length (newCalls st1 (snd (ServeHTTP_mirrors lib Do p w r st))))
               (List.map_filter (mirrorRequest lib r (mirrorTargetURL lib r)) (mirrors p))
       \<and> (\<forall>c\<in>set (butlast (newCalls st1 (snd (ServeHTTP_mirrors lib Do p w r st)))).
             notFoundOrFailed (snd c))
       \<and> (\<forall>mresp. newCalls st1 (snd (ServeHTTP_mirrors lib Do p w r st)) \<noteq> []
             \<and> snd (last (newCalls st1 (snd (ServeHTTP_mirrors lib Do p w r st)))) = Inr mresp
             \<and> StatusCode mresp \<noteq> StatusNotFound
             \<longrightarrow> fst (ServeHTTP_mirrors lib Do p w r st) = writeResponse w mresp)
       \<and> ((\<forall>c\<in>set (newCalls st1 (snd (ServeHTTP_mirrors lib Do p w r st))).
              notFoundOrFailed (snd c))
            \<longrightarrow> length (newCalls st1 (snd (ServeHTTP_mirrors lib Do p w r st)))
                = length (List.map_filter (mirrorRequest lib r (mirrorTargetURL lib r)) (mirrors p)))"
proof -
  let ?t = "mirrorTargetURL lib r"
  let ?cands = "List.map_filter (mirrorRequest lib r ?t) (mirrors p)"
  from ServeHTTP_mirrors_primary_not_found [OF assms, of w] obtain resp' st' where
    tm: "tryMirrors lib Do p ?t r (mirrors p) (Close resp) st1 = (resp', st')"
    and sv: "ServeHTTP_mirrors lib Do p w r st = (writeResponse w resp', st')"
    by blast
  from tryMirrors_trace [OF tm] obtain new where
    a: "calls st' = calls st1 @ new"
    and b: "length new \<le> length ?cands"
    and c: "map fst new = take (length new) ?cands"
    and d: "\<forall>c\<in>set (butlast new). notFoundOrFailed (snd c)"
    and e: "if new \<noteq> [] \<and> \<not> notFoundOrFailed (snd (last new)) then snd (last new) = Inr resp'
            else resp' = Close resp \<and> length new = length ?cands"
    by blast
  have n: "newCalls st1 st' = new" using a by (simp add: newCalls_def)
  have f: "\<forall>mresp. new \<noteq> [] \<and> snd (last new) = Inr mresp \<and> StatusCode mresp \<noteq> StatusNotFound
             \<longrightarrow> writeResponse w resp' = writeResponse w mresp"
    using e by (auto simp: notFoundOrFailed_def)
  have g: "(\<forall>c\<in>set new. notFoundOrFailed (snd c)) \<longrightarrow> length new = length ?cands"
    using e by (cases "new = []") auto
  show ?thesis
    unfolding sv snd_conv fst_conv n using a b c d f g by blast
qed

theorem mirrors_tried_in_order_witness:
  "fst (tryRequest exampleLib exampleTransport exampleMirrorProxy
          (mirrorTargetURL exampleLib exampleProxyRequest) exampleProxyRequest emptyNet)
     = Inr examplePrimary404
   \<and> StatusCode examplePrimary404 = StatusNotFound
   \<and> mirrors exampleMirrorProxy
       = [''://invalid'', ''https://down.example'', ''https://mirror1.example'',
          ''https://mirror2.example'', ''https://mirror3.example'']
   \<and> map (\<lambda>q. Host (RequestURL q))
         (List.map_filter (mirrorRequest exampleLib exampleProxyRequest
                             (mirrorTargetURL exampleLib exampleProxyRequest))
            (mirrors exampleMirrorProxy))
       = [''down.example'', ''mirror1.example'', ''mirror2.example'', ''mirror3.example'']
   \<and> map (\<lambda>c. (Host (RequestURL (fst c)), notFoundOrFailed (snd c)))
         (newCalls
            (snd (tryRequest exampleLib exampleTransport exampleMirrorProxy
                    (mirrorTargetURL exampleLib exampleProxyRequest) exampleProxyRequest emptyNet))
            (snd (ServeHTTP_mirrors exampleLib exampleTransport exampleMirrorProxy emptyWriter
                    exampleProxyRequest emptyNet)))
       = [(''down.example'', True), (''mirror1.example'', True), (''mirror2.example'', False)]
   \<and> fst (ServeHTTP_mirrors exampleLib exampleTransport exampleMirrorProxy emptyWriter
            exampleProxyRequest emptyNet)
       = \<lparr> wHeader = [(''X-Served-By'', [''mirror2''])], wStatus = Some 200,
           wBody = ''found on mirror'' \<rparr>"
proof -
  let ?t = "mirrorTargetURL exampleLib exampleProxyRequest"
  let ?first = "tryRequest exampleLib exampleTransport exampleMirrorProxy ?t exampleProxyRequest emptyNet"
  let ?run = "ServeHTTP_mirrors exampleLib exampleTransport exampleMirrorProxy emptyWriter
                exampleProxyRequest emptyNet"
  have p: "fst ?first = Inr examplePrimary404"
    unfolding example_target by (rule example_primary)
  then have h1: "?first = (Inr examplePrimary404, snd ?first)"
    by (metis prod.collapse)
  have h2: "StatusCode examplePrimary404 = StatusNotFound"
    by (simp add: examplePrimary404_def StatusNotFound_def)
  have m: "mirrors exampleMirrorProxy
       = [''://invalid'', ''https://down.example'', ''https://mirror1.example'',
          ''https://mirror2.example'', ''https://mirror3.example'']"
    by (simp add: exampleMirrorProxy_def NewMirrorProxy_def exampleMirrors_def)
  then have h3: "mirrors exampleMirrorProxy \<noteq> []" by simp
  have at: "map (\<lambda>c. (Host (RequestURL (fst c)), notFoundOrFailed (snd c))) (newCalls (snd ?first) (snd ?run))
       = [(''down.example'', True), (''mirror1.example'', True), (''mirror2.example'', False)]"
    unfolding example_target by (rule example_attempts)
  then have ne: "newCalls (snd ?first) (snd ?run) \<noteq> []" by auto
  have la: "snd (last (newCalls (snd ?first) (snd ?run))) = Inr exampleMirror200"
    unfolding example_target by (rule example_last)
  have st: "StatusCode exampleMirror200 \<noteq> StatusNotFound"
    by (simp add: exampleMirror200_def StatusNotFound_def)
  from mirrors_tried_in_order [OF h1 h2 h3, of emptyWriter] ne la st
  have "fst ?run = writeResponse emptyWriter exampleMirror200" by blast
  then have w: "fst ?run = \<lparr> wHeader = [(''X-Served-By'', [''mirror2''])], wStatus = Some 200,
                              wBody = ''found on mirror'' \<rparr>"
    unfolding example_written .
  have c: "map (\<lambda>q. Host (RequestURL q))
         (List.map_filter (mirrorRequest exampleLib exampleProxyRequest ?t) (mirrors exampleMirrorProxy))
       = [''down.example'', ''mirror1.example'', ''mirror2.example'', ''mirror3.example'']"
    unfolding example_target by (rule example_candidates)
  from p h2 m c at w show ?thesis by blast
qed
text \<open>
  C5, as amended. When the primary target answers 404 and every mirror attempt fails in
  transport or answers 404, the client receives the status 404 and the headers of the
  response of the primary target (\<^verbatim>\<open>resp\<close> is reassigned only on a mirror response
  that is not 404).
\<close>

theorem all_not_found_returns_primary:
  assumes "tryRequest lib Do p (mirrorTargetURL lib r) r st = (Inr resp, st1)"
    and "StatusCode resp = StatusNotFound"
    and "\<forall>c\<in>set (newCalls st1 (snd (ServeHTTP_mirrors lib Do p w r st))). notFoundOrFailed (snd c)"
    and "wStatus w = None"
  shows "wStatus (fst (ServeHTTP_mirrors lib Do p w r st)) = Some StatusNotFound
       \<and> wHeader (fst (ServeHTTP_mirrors lib Do p w r st))
           = copyHeader (ResponseHeader resp) (wHeader w)"
proof (cases "mirrors p = []")
  case True
  with assms(1) have "ServeHTTP_mirrors lib Do p w r st = (writeResponse w resp, st1)"
    by (simp add: ServeHTTP_mirrors_def Let_def)
  then show ?thesis
    using writeResponse_status [OF assms(4), of resp] assms(2) by (simp add: writeResponse_header)
next
  case False
  let ?t = "mirrorTargetURL lib r"
  from ServeHTTP_mirrors_primary_not_found [OF assms(1,2) False, of w] obtain resp' st' where
    tm: "tryMirrors lib Do p ?t r (mirrors p) (Close resp) st1 = (resp', st')"
    and sv: "ServeHTTP_mirrors lib Do p w r st = (writeResponse w resp', st')"
    by blast
  from tryMirrors_trace [OF tm] obtain new where
    a: "calls st' = calls st1 @ new"
    and e: "if new \<noteq> [] \<and> \<not> notFoundOrFailed (snd (last new)) then snd (last new) = Inr resp'
            else resp' = Close resp
                 \<and> length new = length (List.map_filter (mirrorRequest lib r ?t) (mirrors p))"
    by blast
  have n: "newCalls st1 st' = new" using a by (simp add: newCalls_def)
  have "\<forall>c\<in>set new. notFoundOrFailed (snd c)" using assms(3) unfolding sv snd_conv n .
  then have "\<not> (new \<noteq> [] \<and> \<not> notFoundOrFailed (snd (last new)))"
    by (cases "new = []") auto
  with e have "resp' = Close resp" by presburger
  then show ?thesis
    unfolding sv fst_conv
    using writeResponse_status [OF assms(4), of "Close resp"] assms(2)
    by (simp add: writeResponse_header Close_fields)
qed

theorem all_not_found_returns_primary_witness:
  "fst (tryRequest exampleLib exampleTransport exampleSingleMirror
          (mirrorTargetURL exampleLib exampleProxyRequest) exampleProxyRequest emptyNet)
     = Inr examplePrimary404
   \<and> StatusCode examplePrimary404 = StatusNotFound
   \<and> map (\<lambda>c. snd c)
         (newCalls
            (snd (tryRequest exampleLib exampleTransport exampleSingleMirror
                    (mirrorTargetURL exampleLib exampleProxyRequest) exampleProxyRequest emptyNet))
            (snd (ServeHTTP_mirrors exampleLib exampleTransport exampleSingleMirror emptyWriter
                    exampleProxyRequest emptyNet)))
       = [Inr exampleMirror404]
   \<and> notFoundOrFailed (Inr exampleMirror404)
   \<and> wStatus emptyWriter = None
   \<and> wStatus (fst (ServeHTTP_mirrors exampleLib exampleTransport exampleSingleMirror emptyWriter
                     exampleProxyRequest emptyNet)) = Some 404
   \<and> wHeader (fst (ServeHTTP_mirrors exampleLib exampleTransport exampleSingleMirror emptyWriter
                     exampleProxyRequest emptyNet)) = [(''X-Served-By'', [''primary''])]"
proof -
  let ?t = "mirrorTargetURL exampleLib exampleProxyRequest"
  let ?first = "tryRequest exampleLib exampleTransport exampleSingleMirror ?t exampleProxyRequest emptyNet"
  let ?run = "ServeHTTP_mirrors exampleLib exampleTransport exampleSingleMirror emptyWriter
                exampleProxyRequest emptyNet"
  have p: "fst ?first = Inr examplePrimary404"
    unfolding example_target by (rule example_single_primary)
  then have h1: "?first = (Inr examplePrimary404, snd ?first)"
    by (metis prod.collapse)
  have h2: "StatusCode examplePrimary404 = StatusNotFound"
    by (simp add: examplePrimary404_def StatusNotFound_def)
  have at: "map (\<lambda>c. snd c) (newCalls (snd ?first) (snd ?run)) = [Inr exampleMirror404]"
    unfolding example_target by (rule example_single_attempts)
  have nf: "notFoundOrFailed (Inr exampleMirror404)"
    by (simp add: notFoundOrFailed_def exampleMirror404_def StatusNotFound_def)
  have h3: "\<forall>c\<in>set (newCalls (snd ?first) (snd ?run)). notFoundOrFailed (snd c)"
    using at by (rule all_of_map) (simp add: nf)
  have h4: "wStatus emptyWriter = None" by (simp add: emptyWriter_def)
  from all_not_found_returns_primary [OF h1 h2 h3 h4]
  have "wStatus (fst ?run) = Some StatusNotFound"
    and "wHeader (fst ?run) = copyHeader (ResponseHeader examplePrimary404) (wHeader emptyWriter)"
    by blast+
  then have "wStatus (fst ?run) = Some 404" "wHeader (fst ?run) = [(''X-Served-By'', [''primary''])]"
    by (simp_all add: example_defs)
  with p h2 at nf h4 show ?thesis by blast
qed

text \<open>
  C5 as stated fails on which 404 response is returned: with one mirror answering 404,
  the last response obtained is the mirror's, with the header \<^verbatim>\<open>X-Served-By: mirror1\<close>,
  while the client receives the headers of the primary target's response; and since
  that response's body was closed before the mirrors were tried, nothing of it is copied.
\<close>

theorem all_not_found_counterexample:
  "snd (last (calls (snd (ServeHTTP_mirrors exampleLib exampleTransport exampleSingleMirror emptyWriter
                            exampleProxyRequest emptyNet))))
     = Inr exampleMirror404
   \<and> ResponseHeader exampleMirror404 = [(''X-Served-By'', [''mirror1''])]
   \<and> fst (ServeHTTP_mirrors exampleLib exampleTransport exampleSingleMirror emptyWriter
            exampleProxyRequest emptyNet)
       = \<lparr> wHeader = [(''X-Served-By'', [''primary''])], wStatus = Some 404, wBody = [] \<rparr>
   \<and> writeResponse emptyWriter exampleMirror404
       = \<lparr> wHeader = [(''X-Served-By'', [''mirror1''])], wStatus = Some 404, wBody = ''not found'' \<rparr>"
proof -
  have "ResponseHeader exampleMirror404 = [(''X-Served-By'', [''mirror1''])]"
    by (simp add: exampleMirror404_def)
  moreover have "writeResponse emptyWriter exampleMirror404
       = \<lparr> wHeader = [(''X-Served-By'', [''mirror1''])], wStatus = Some 404, wBody = ''not found'' \<rparr>"
    by (simp add: example_defs)
  ultimately show ?thesis using example_single_last example_single_result by blast
qed
section \<open>Default host and errors\<close>

text \<open>
  C6, as amended. When no mapping matches the path followed, when the query is not
  empty, by \<^verbatim>\<open>?\<close> and the query, and the default host is configured and parses, the
  target is the URL made of the scheme and host of the default host and of the path and
  query of the request, as \<^verbatim>\<open>URL.String\<close> prints it. When scheme and host are not
  empty, neither the host nor the path needs escaping, and the path is empty or starts
  with a slash, this is \<^verbatim>\<open>scheme://host\<close> followed by the path and, when the query is
  not empty, by \<^verbatim>\<open>?\<close> and the query.
\<close>

theorem buildTargetURL_default_host:
  assumes "\<forall>m\<in>set (compiledMappings p). \<not> MatchString (regex m) (originalPath r)"
    and "defaultHost p \<noteq> []"
    and "url_Parse lib (defaultHost p) = Inr parsed"
  shows "buildTargetURL lib p r
           = Inr (URL_String lib (zeroURL\<lparr> Scheme := Scheme parsed, Host := Host parsed,
                                           Path := Path (RequestURL r),
                                           RawQuery := RawQuery (RequestURL r) \<rparr>))
         \<and> (Scheme parsed \<noteq> [] \<and> Host parsed \<noteq> []
            \<and> url_escapeHost lib (Host parsed) = Host parsed
            \<and> url_EscapedPath lib (zeroURL\<lparr> Scheme := Scheme parsed, Host := Host parsed,
                                             Path := Path (RequestURL r),
                                             RawQuery := RawQuery (RequestURL r) \<rparr>)
                = Path (RequestURL r)
            \<and> (Path (RequestURL r) = [] \<or> hd (Path (RequestURL r)) = CHR ''/'')
            \<longrightarrow> buildTargetURL lib p r
                  = Inr (Scheme parsed @ ''://'' @ Host parsed @ Path (RequestURL r)
                         @ (if RawQuery (RequestURL r) = [] then []
                            else ''?'' @ RawQuery (RequestURL r))))"
proof -
  define target where "target = zeroURL\<lparr> Scheme := Scheme parsed, Host := Host parsed,
                                           Path := Path (RequestURL r),
                                           RawQuery := RawQuery (RequestURL r) \<rparr>"
  have b: "buildTargetURL lib p r = Inr (URL_String lib target)"
    unfolding buildTargetURL_originalPath target_def
    using findMapping_no_match [OF assms(1)] assms(2,3) by simp
  have f: "Scheme target = Scheme parsed" "Host target = Host parsed"
    "Path target = Path (RequestURL r)" "RawQuery target = RawQuery (RequestURL r)"
    "Opaque target = []" "User target = None" "\<not> ForceQuery target" "Fragment target = []"
    "\<not> OmitHost target"
    by (simp_all add: target_def zeroURL_def)
  have "URL_String lib target
          = Scheme parsed @ ''://'' @ Host parsed @ Path (RequestURL r)
            @ (if RawQuery (RequestURL r) = [] then [] else ''?'' @ RawQuery (RequestURL r))"
    if "Scheme parsed \<noteq> []" "Host parsed \<noteq> []" "url_escapeHost lib (Host parsed) = Host parsed"
      "url_EscapedPath lib target = Path (RequestURL r)"
      "Path (RequestURL r) = [] \<or> hd (Path (RequestURL r)) = CHR ''/''"
    using that by (auto simp: URL_String_def Let_def f)
  with b show ?thesis unfolding target_def by simp
qed

theorem buildTargetURL_default_host_witness:
  "\<not> MatchString watchdog ''/some/path?key=value'' \<and> \<not> MatchString testItem ''/some/path?key=value''
   \<and> defaultHost exampleProxy = ''https://default.com''
   \<and> url_Parse exampleLib ''https://default.com''
       = Inr (zeroURL\<lparr> Scheme := ''https'', Host := ''default.com'' \<rparr>)
   \<and> buildTargetURL exampleLib exampleProxy (exampleRequest ''/some/path'' ''key=value'' None)
       = Inr ''https://default.com/some/path?key=value''"
proof -
  let ?r = "exampleRequest ''/some/path'' ''key=value'' None"
  let ?parsed = "zeroURL\<lparr> Scheme := ''https'', Host := ''default.com'' \<rparr>"
  have o: "originalPath ?r = ''/some/path?key=value''"
    by (simp add: originalPath_def exampleRequest_def exampleURL_def zeroURL_def)
  have a: "\<not> MatchString watchdog ''/some/path?key=value''" by code_simp
  have b: "\<not> MatchString testItem ''/some/path?key=value''" by code_simp
  have h1: "\<forall>m\<in>set (compiledMappings exampleProxy). \<not> MatchString (regex m) (originalPath ?r)"
    using a b by (simp add: o exampleProxy_def)
  have d: "defaultHost exampleProxy = ''https://default.com''" by (simp add: exampleProxy_def)
  then have h2: "defaultHost exampleProxy \<noteq> []" by simp
  have p: "url_Parse exampleLib ''https://default.com'' = Inr ?parsed"
    by (simp add: exampleLib_def exampleParse_def exampleURL_def zeroURL_def)
  then have h3: "url_Parse exampleLib (defaultHost exampleProxy) = Inr ?parsed" by (simp add: d)
  have side: "Scheme ?parsed \<noteq> [] \<and> Host ?parsed \<noteq> []
            \<and> url_escapeHost exampleLib (Host ?parsed) = Host ?parsed
            \<and> url_EscapedPath exampleLib (zeroURL\<lparr> Scheme := Scheme ?parsed, Host := Host ?parsed,
                                             Path := Path (RequestURL ?r),
                                             RawQuery := RawQuery (RequestURL ?r) \<rparr>)
                = Path (RequestURL ?r)
            \<and> (Path (RequestURL ?r) = [] \<or> hd (Path (RequestURL ?r)) = CHR ''/'')"
    by (simp add: exampleLib_def exampleRequest_def exampleURL_def zeroURL_def)
  from buildTargetURL_default_host [OF h1 h2 h3] side
  have "buildTargetURL exampleLib exampleProxy ?r
          = Inr (Scheme ?parsed @ ''://'' @ Host ?parsed @ Path (RequestURL ?r)
                 @ (if RawQuery (RequestURL ?r) = [] then [] else ''?'' @ RawQuery (RequestURL ?r)))"
    by blast
  then have "buildTargetURL exampleLib exampleProxy ?r = Inr ''https://default.com/some/path?key=value''"
    by (simp add: exampleRequest_def exampleURL_def zeroURL_def)
  with a b d p show ?thesis by simp
qed

text \<open>
  C6 as stated fails for a request whose path matches no mapping while its path and
  query together do: with the default host \<^verbatim>\<open>https://default.com\<close>, the path \<^verbatim>\<open>/x\<close>
  and the query \<^verbatim>\<open>next=/test/7\<close>, the target is not
  \<^verbatim>\<open>https://default.com/x?next=/test/7\<close> but the result of the mapping
  \<^verbatim>\<open>/test/(\d+)\<close>.
\<close>

theorem buildTargetURL_path_only_counterexample:
  "Path (RequestURL (exampleRequest ''/x'' ''next=/test/7'' None)) = ''/x''
   \<and> map (\<lambda>m. MatchString (regex m) ''/x'') (compiledMappings exampleProxy) = [False, False]
   \<and> defaultHost exampleProxy = ''https://default.com''
   \<and> buildTargetURL exampleLib exampleProxy (exampleRequest ''/x'' ''next=/test/7'' None)
       = Inr ''/x?next=https://mapped.com/item/7''"
proof -
  have a: "\<not> MatchString watchdog ''/x''" by code_simp
  have b: "\<not> MatchString testItem ''/x''" by code_simp
  have d: "buildTargetURL exampleLib exampleProxy (exampleRequest ''/x'' ''next=/test/7'' None)
       = Inr ''/x?next=https://mapped.com/item/7''"
    using example_build_query [of "''https://default.com''" None] by (simp add: exampleProxy_def)
  from a b d show ?thesis
    by (simp add: exampleRequest_def exampleURL_def exampleProxy_def)
qed
text \<open>
  C7, as amended. When no mapping matches the path followed, when the query is not
  empty, by \<^verbatim>\<open>?\<close> and the query, and the default host is empty,
  \<^verbatim>\<open>buildTargetURL\<close> returns an error, and \<^verbatim>\<open>ServeHTTP\<close> answers 502 (Bad Gateway)
  and leaves the network as it was: no request is sent.
\<close>

theorem ServeHTTP_no_route:
  assumes "\<forall>m\<in>set (compiledMappings p). \<not> MatchString (regex m) (originalPath r)"
    and "defaultHost p = []"
    and "wStatus w = None"
  shows "buildTargetURL lib p r = Inl ''no default host configured and no mapping matched''
         \<and> wStatus (fst (ServeHTTP lib Do p w r st)) = Some StatusBadGateway
         \<and> snd (ServeHTTP lib Do p w r st) = st"
proof -
  have b: "buildTargetURL lib p r = Inl ''no default host configured and no mapping matched''"
    unfolding buildTargetURL_originalPath
    using findMapping_no_match [OF assms(1)] assms(2) by simp
  then show ?thesis
    using wStatus_http_Error [OF assms(3)] by (simp add: ServeHTTP_def)
qed

theorem ServeHTTP_no_route_witness:
  "\<not> MatchString watchdog ''/some/path'' \<and> \<not> MatchString testItem ''/some/path''
   \<and> buildTargetURL exampleLib (exampleProxy\<lparr> defaultHost := [] \<rparr>) (exampleRequest ''/some/path'' [] None)
       = Inl ''no default host configured and no mapping matched''
   \<and> wStatus (fst (ServeHTTP exampleLib exampleTransport (exampleProxy\<lparr> defaultHost := [] \<rparr>)
                     emptyWriter (exampleRequest ''/some/path'' [] None) emptyNet)) = Some 502
   \<and> calls (snd (ServeHTTP exampleLib exampleTransport (exampleProxy\<lparr> defaultHost := [] \<rparr>)
                     emptyWriter (exampleRequest ''/some/path'' [] None) emptyNet)) = []"
proof -
  let ?r = "exampleRequest ''/some/path'' [] None"
  let ?p = "exampleProxy\<lparr> defaultHost := [] \<rparr>"
  have o: "originalPath ?r = ''/some/path''"
    by (simp add: originalPath_def exampleRequest_def exampleURL_def zeroURL_def)
  have a: "\<not> MatchString watchdog ''/some/path''" by code_simp
  have b: "\<not> MatchString testItem ''/some/path''" by code_simp
  have h1: "\<forall>m\<in>set (compiledMappings ?p). \<not> MatchString (regex m) (originalPath ?r)"
    using a b by (simp add: o exampleProxy_def)
  have h2: "defaultHost ?p = []" by simp
  have h3: "wStatus emptyWriter = None" by (simp add: emptyWriter_def)
  from ServeHTTP_no_route [OF h1 h2 h3, of exampleLib exampleTransport emptyNet] a b
  show ?thesis by (simp add: StatusBadGateway_def emptyNet_def)
qed

text \<open>
  C7 as stated fails for a request whose path matches no mapping while its path and
  query together do: with no default host, the path \<^verbatim>\<open>/x\<close> and the query
  \<^verbatim>\<open>next=/test/7\<close>, \<^verbatim>\<open>buildTargetURL\<close> returns a target and no error, and
  \<^verbatim>\<open>ServeHTTP\<close> hands a request for it to the client. (The target has no scheme, the
  client refuses it, and the reply says that the target server could not be reached.)
\<close>

theorem ServeHTTP_path_only_counterexample:
  "Path (RequestURL (exampleRequest ''/x'' ''next=/test/7'' None)) = ''/x''
   \<and> map (\<lambda>m. MatchString (regex m) ''/x'') (compiledMappings (exampleProxy\<lparr> defaultHost := [] \<rparr>))
       = [False, False]
   \<and> defaultHost (exampleProxy\<lparr> defaultHost := [] \<rparr>) = []
   \<and> buildTargetURL exampleLib (exampleProxy\<lparr> defaultHost := [] \<rparr>)
         (exampleRequest ''/x'' ''next=/test/7'' None)
       = Inr ''/x?next=https://mapped.com/item/7''
   \<and> map (\<lambda>c. (URL_String exampleLib (RequestURL (fst c)), snd c))
         (calls (snd (ServeHTTP exampleLib exampleTransport (exampleProxy\<lparr> defaultHost := [] \<rparr>)
                        emptyWriter (exampleRequest ''/x'' ''next=/test/7'' None) emptyNet)))
       = [(''/x?next=https://mapped.com/item/7'', Inl ''unsupported protocol scheme'')]
   \<and> wBody (fst (ServeHTTP exampleLib exampleTransport (exampleProxy\<lparr> defaultHost := [] \<rparr>)
                    emptyWriter (exampleRequest ''/x'' ''next=/test/7'' None) emptyNet))
       = ''Failed to reach target server'' @ [CHR 0x0A]"
proof -
  let ?p = "exampleProxy\<lparr> defaultHost := [] \<rparr>"
  let ?r = "exampleRequest ''/x'' ''next=/test/7'' None"
  have a: "\<not> MatchString watchdog ''/x''" by code_simp
  have b: "\<not> MatchString testItem ''/x''" by code_simp
  have d: "buildTargetURL exampleLib ?p ?r = Inr ''/x?next=https://mapped.com/item/7''"
    by (rule example_build_query)
  have c: "map (\<lambda>c. (URL_String exampleLib (RequestURL (fst c)), snd c))
             (calls (snd (ServeHTTP exampleLib exampleTransport ?p emptyWriter ?r emptyNet)))
           = [(''/x?next=https://mapped.com/item/7'', Inl ''unsupported protocol scheme'')]"
    unfolding ServeHTTP_def d
    by (simp add: NewRequest_def removeEmptyPort_def client_Do_def forwardHeaders_def
          URL_String_def exampleLib_def exampleParse_def exampleURL_def zeroURL_def
          exampleTransport_def exampleRequest_def emptyNet_def example_tokens Let_def)
  have w: "wBody (fst (ServeHTTP exampleLib exampleTransport ?p emptyWriter ?r emptyNet))
           = ''Failed to reach target server'' @ [CHR 0x0A]"
    unfolding ServeHTTP_def d
    by (simp add: NewRequest_def removeEmptyPort_def client_Do_def forwardHeaders_def
          http_Error_def Write_def WriteHeader_def
          exampleLib_def exampleParse_def exampleURL_def zeroURL_def
          exampleTransport_def exampleRequest_def emptyNet_def emptyWriter_def example_tokens Let_def)
  from a b d c w show ?thesis
    by (simp add: exampleRequest_def exampleURL_def exampleProxy_def)
qed
text \<open>
  C8. If some pattern of the list fails to compile, \<^verbatim>\<open>NewProxy\<close> returns an error and
  no proxy; a proxy it does return holds every mapping of the list, compiled, in order.
  Patterns are compiled nowhere else: \<^verbatim>\<open>findMapping\<close>, \<^verbatim>\<open>buildTargetURL\<close> and
  \<^verbatim>\<open>ServeHTTP\<close> give the same result whatever the pattern compiler of the library is.
\<close>

theorem NewProxy_rejects_invalid_pattern:
  "(m \<in> set mappings \<and> regexp_Compile lib (From m) = Inl err
      \<longrightarrow> (\<exists>e. NewProxy lib host mappings follow = Inl e))
   \<and> (NewProxy lib host mappings follow = Inr p
      \<longrightarrow> map (\<lambda>c. (Inr (regex c), to c)) (compiledMappings p)
            = map (\<lambda>m. (regexp_Compile lib (From m), To m)) mappings)
   \<and> findMapping (lib\<lparr> regexp_Compile := compile \<rparr>) q path = findMapping lib q path
   \<and> buildTargetURL (lib\<lparr> regexp_Compile := compile \<rparr>) q r = buildTargetURL lib q r
   \<and> ServeHTTP (lib\<lparr> regexp_Compile := compile \<rparr>) Do q w r st = ServeHTTP lib Do q w r st"
proof (intro conjI impI)
  assume "m \<in> set mappings \<and> regexp_Compile lib (From m) = Inl err"
  then obtain e where "compileMappings lib mappings [] = Inl e"
    using compileMappings_Inl [of m mappings lib err "[]"] by blast
  then show "\<exists>e. NewProxy lib host mappings follow = Inl e"
    by (simp add: NewProxy_def)
next
  assume "NewProxy lib host mappings follow = Inr p"
  then obtain cs where c: "compileMappings lib mappings [] = Inr cs" and "compiledMappings p = cs"
    by (auto simp: NewProxy_def Let_def split: sum.splits)
  with compileMappings_Inr [OF c]
  show "map (\<lambda>c. (Inr (regex c), to c)) (compiledMappings p)
            = map (\<lambda>m. (regexp_Compile lib (From m), To m)) mappings" by simp
next
  show "findMapping (lib\<lparr> regexp_Compile := compile \<rparr>) q path = findMapping lib q path"
    by (simp add: findMapping_Compile)
  show "buildTargetURL (lib\<lparr> regexp_Compile := compile \<rparr>) q r = buildTargetURL lib q r"
    by (simp add: buildTargetURL_Compile)
  show "ServeHTTP (lib\<lparr> regexp_Compile := compile \<rparr>) Do q w r st = ServeHTTP lib Do q w r st"
    by (rule ServeHTTP_Compile)
qed

theorem NewProxy_rejects_invalid_pattern_witness:
  "regexp_Compile exampleLib ''[invalid(regex'' = Inl ''error parsing regexp''
   \<and> (\<exists>e. NewProxy exampleLib ''https://default.com''
              [\<lparr> From = ''/test/('' @ [CHR 0x5C] @ ''d+)'', To = ''https://mapped.com/item/$1'' \<rparr>,
               \<lparr> From = ''[invalid(regex'', To = ''https://example.com'' \<rparr>] False = Inl e)
   \<and> NewProxy exampleLib ''https://default.com''
         [\<lparr> From = ''/test/('' @ [CHR 0x5C] @ ''d+)'', To = ''https://mapped.com/item/$1'' \<rparr>] False
       = Inr (exampleProxy\<lparr> compiledMappings :=
                [\<lparr> regex = testItem, to = ''https://mapped.com/item/$1'' \<rparr>] \<rparr>)
   \<and> map (\<lambda>c. (Inr (regex c) :: error + regexp, to c))
         [\<lparr> regex = testItem, to = ''https://mapped.com/item/$1'' \<rparr>]
       = map (\<lambda>m. (regexp_Compile exampleLib (From m), To m))
           [\<lparr> From = ''/test/('' @ [CHR 0x5C] @ ''d+)'', To = ''https://mapped.com/item/$1'' \<rparr>]
   \<and> buildTargetURL (exampleLib\<lparr> regexp_Compile := (\<lambda>s. Inl ''no compiler'') \<rparr>) exampleProxy
         (exampleRequest ''/x'' ''next=/test/7'' None)
       = Inr ''/x?next=https://mapped.com/item/7''
   \<and> map (\<lambda>c. snd c)
         (calls (snd (ServeHTTP (exampleLib\<lparr> regexp_Compile := (\<lambda>s. Inl ''no compiler'') \<rparr>)
                        exampleTransport exampleProxy emptyWriter
                        (exampleRequest ''/some/path'' ''key=value'' (Some ''payload'')) emptyNet)))
       = [Inr exampleDefault200]"
proof -
  let ?good = "\<lparr> From = ''/test/('' @ [CHR 0x5C] @ ''d+)'', To = ''https://mapped.com/item/$1'' \<rparr>"
  let ?bad = "\<lparr> From = ''[invalid(regex'', To = ''https://example.com'' \<rparr>"
  let ?p = "exampleProxy\<lparr> compiledMappings :=
                [\<lparr> regex = testItem, to = ''https://mapped.com/item/$1'' \<rparr>] \<rparr>"
  let ?none = "\<lambda>s :: string. Inl ''no compiler'' :: error + regexp"
  let ?r = "exampleRequest ''/some/path'' ''key=value'' (Some ''payload'')"
  have c: "regexp_Compile exampleLib ''[invalid(regex'' = Inl ''error parsing regexp''"
    by (simp add: exampleLib_def)
  then have h: "?bad \<in> set [?good, ?bad]
                \<and> regexp_Compile exampleLib (From ?bad) = Inl ''error parsing regexp''"
    by simp
  have n: "NewProxy exampleLib ''https://default.com'' [?good] False = Inr ?p"
    by (simp add: NewProxy_def exampleLib_def exampleProxy_def Let_def)
  note t1 = NewProxy_rejects_invalid_pattern
         [of ?bad "[?good, ?bad]" exampleLib "''error parsing regexp''" "''https://default.com''" False
             _ ?none exampleProxy _ "exampleRequest ''/x'' ''next=/test/7'' None"]
  from t1 h
  have 1: "\<exists>e. NewProxy exampleLib ''https://default.com'' [?good, ?bad] False = Inl e"
    by blast
  from t1 have "buildTargetURL (exampleLib\<lparr> regexp_Compile := ?none \<rparr>) exampleProxy
                  (exampleRequest ''/x'' ''next=/test/7'' None)
                = buildTargetURL exampleLib exampleProxy (exampleRequest ''/x'' ''next=/test/7'' None)"
    by blast
  also have "\<dots> = Inr ''/x?next=https://mapped.com/item/7''"
    using example_build_query [of "''https://default.com''" None] by (simp add: exampleProxy_def)
  finally have 3: "buildTargetURL (exampleLib\<lparr> regexp_Compile := ?none \<rparr>) exampleProxy
                  (exampleRequest ''/x'' ''next=/test/7'' None)
                = Inr ''/x?next=https://mapped.com/item/7''" .
  note t2 = NewProxy_rejects_invalid_pattern
         [of ?bad "[?good]" exampleLib "''error parsing regexp''" "''https://default.com''" False ?p
             ?none exampleProxy _ ?r exampleTransport emptyWriter emptyNet]
  from t2 n
  have 2: "map (\<lambda>c. (Inr (regex c), to c)) (compiledMappings ?p)
            = map (\<lambda>m. (regexp_Compile exampleLib (From m), To m)) [?good]"
    by blast
  from t2 have "ServeHTTP (exampleLib\<lparr> regexp_Compile := ?none \<rparr>) exampleTransport exampleProxy
                  emptyWriter ?r emptyNet
                = ServeHTTP exampleLib exampleTransport exampleProxy emptyWriter ?r emptyNet"
    by blast
  then have 4: "map (\<lambda>c. snd c)
         (calls (snd (ServeHTTP (exampleLib\<lparr> regexp_Compile := ?none \<rparr>)
                        exampleTransport exampleProxy emptyWriter ?r emptyNet)))
       = [Inr exampleDefault200]"
    using example_serve_calls by (simp add: newCalls_def emptyNet_def)
  from c 1 n 2 3 4 show ?thesis by simp
qed
section \<open>Headers\<close>

text \<open>
  C9. On every request sent while serving an inbound request, every value of every header
  of the inbound request is among the values of the header of that name, except that
  when the client's address is not empty the header \<^verbatim>\<open>X-Forwarded-For\<close> holds that
  address alone; and every value of every header of the upstream response returned to
  the client is among the values of the header of that name on the response written.
  With mirrors, the upstream response returned is the one whose status is not 404, or,
  when every attempt failed or answered 404, that of the first attempt, the primary
  target. (Header names are compared in their canonical form, as \<^verbatim>\<open>Header.Add\<close> stores
  them.)
\<close>

theorem headers_forwarded:
  "(\<forall>c\<in>set (newCalls st (snd (ServeHTTP lib Do p w r st))).
      (\<forall>(name, vs)\<in>set (RequestHeader r). \<forall>v\<in>set vs.
          CanonicalMIMEHeaderKey name \<noteq> ''X-Forwarded-For'' \<or> RemoteAddr r = []
          \<longrightarrow> v \<in> set (Header_Values (RequestHeader (fst c)) name))
      \<and> (RemoteAddr r \<noteq> []
          \<longrightarrow> Header_Values (RequestHeader (fst c)) ''X-Forwarded-For'' = [RemoteAddr r])
      \<and> (\<forall>resp. snd c = Inr resp
          \<longrightarrow> (\<forall>(name, vs)\<in>set (ResponseHeader resp). \<forall>v\<in>set vs.
                 v \<in> set (Header_Values (wHeader (fst (ServeHTTP lib Do p w r st))) name))))
   \<and> (\<forall>c\<in>set (newCalls st (snd (ServeHTTP_mirrors lib Do mp w r st))).
      (\<forall>(name, vs)\<in>set (RequestHeader r). \<forall>v\<in>set vs.
          CanonicalMIMEHeaderKey name \<noteq> ''X-Forwarded-For'' \<or> RemoteAddr r = []
          \<longrightarrow> v \<in> set (Header_Values (RequestHeader (fst c)) name))
      \<and> (RemoteAddr r \<noteq> []
          \<longrightarrow> Header_Values (RequestHeader (fst c)) ''X-Forwarded-For'' = [RemoteAddr r])
      \<and> (\<forall>resp. snd c = Inr resp
             \<and> (StatusCode resp \<noteq> StatusNotFound
                \<or> c = hd (newCalls st (snd (ServeHTTP_mirrors lib Do mp w r st)))
                  \<and> (\<forall>d\<in>set (newCalls st (snd (ServeHTTP_mirrors lib Do mp w r st))).
                        notFoundOrFailed (snd d)))
          \<longrightarrow> (\<forall>(name, vs)\<in>set (ResponseHeader resp). \<forall>v\<in>set vs.
                 v \<in> set (Header_Values (wHeader (fst (ServeHTTP_mirrors lib Do mp w r st))) name))))"
proof -
  have a: "(\<forall>(name, vs)\<in>set (RequestHeader r). \<forall>v\<in>set vs.
          CanonicalMIMEHeaderKey name \<noteq> ''X-Forwarded-For'' \<or> RemoteAddr r = []
          \<longrightarrow> v \<in> set (Header_Values (RequestHeader (forwardHeaders r req)) name))
      \<and> (RemoteAddr r \<noteq> []
          \<longrightarrow> Header_Values (RequestHeader (forwardHeaders r req)) ''X-Forwarded-For''
                = [RemoteAddr r])" for req
    unfolding Header_Values_def canonical_XFF
    using forwardHeaders_copies [of _ _ r _ req] forwardHeaders_XFF [of r req] by blast
  have b: "\<forall>(name, vs)\<in>set (ResponseHeader resp). \<forall>v\<in>set vs.
             v \<in> set (Header_Values (wHeader (writeResponse w resp)) name)" for resp
    unfolding Header_Values_def writeResponse_header
    using copyHeader_copies [of _ _ "ResponseHeader resp" _ "wHeader w"] by blast
  have 1: "(\<forall>(name, vs)\<in>set (RequestHeader r). \<forall>v\<in>set vs.
          CanonicalMIMEHeaderKey name \<noteq> ''X-Forwarded-For'' \<or> RemoteAddr r = []
          \<longrightarrow> v \<in> set (Header_Values (RequestHeader (fst c)) name))
      \<and> (RemoteAddr r \<noteq> []
          \<longrightarrow> Header_Values (RequestHeader (fst c)) ''X-Forwarded-For'' = [RemoteAddr r])
      \<and> (\<forall>resp. snd c = Inr resp
          \<longrightarrow> (\<forall>(name, vs)\<in>set (ResponseHeader resp). \<forall>v\<in>set vs.
                 v \<in> set (Header_Values (wHeader (fst (ServeHTTP lib Do p w r st))) name)))"
    if "c \<in> set (newCalls st (snd (ServeHTTP lib Do p w r st)))" for c
  proof -
    from ServeHTTP_requests [OF that] obtain url req where
      q: "fst c = forwardHeaders r req"
      and w: "case snd c of Inl err \<Rightarrow> True
              | Inr resp \<Rightarrow> fst (ServeHTTP lib Do p w r st) = writeResponse w resp"
      by blast
    have "\<forall>resp. snd c = Inr resp
          \<longrightarrow> (\<forall>(name, vs)\<in>set (ResponseHeader resp). \<forall>v\<in>set vs.
                 v \<in> set (Header_Values (wHeader (fst (ServeHTTP lib Do p w r st))) name))"
    proof (intro allI impI)
      fix resp assume "snd c = Inr resp"
      with w have "fst (ServeHTTP lib Do p w r st) = writeResponse w resp" by simp
      then show "\<forall>(name, vs)\<in>set (ResponseHeader resp). \<forall>v\<in>set vs.
                 v \<in> set (Header_Values (wHeader (fst (ServeHTTP lib Do p w r st))) name)"
        using b [of resp] by simp
    qed
    with a [of req] show ?thesis unfolding q by blast
  qed
  have 2: "(\<forall>(name, vs)\<in>set (RequestHeader r). \<forall>v\<in>set vs.
          CanonicalMIMEHeaderKey name \<noteq> ''X-Forwarded-For'' \<or> RemoteAddr r = []
          \<longrightarrow> v \<in> set (Header_Values (RequestHeader (fst c)) name))
      \<and> (RemoteAddr r \<noteq> []
          \<longrightarrow> Header_Values (RequestHeader (fst c)) ''X-Forwarded-For'' = [RemoteAddr r])
      \<and> (\<forall>resp. snd c = Inr resp
             \<and> (StatusCode resp \<noteq> StatusNotFound
                \<or> c = hd (newCalls st (snd (ServeHTTP_mirrors lib Do mp w r st)))
                  \<and> (\<forall>d\<in>set (newCalls st (snd (ServeHTTP_mirrors lib Do mp w r st))).
                        notFoundOrFailed (snd d)))
          \<longrightarrow> (\<forall>(name, vs)\<in>set (ResponseHeader resp). \<forall>v\<in>set vs.
                 v \<in> set (Header_Values (wHeader (fst (ServeHTTP_mirrors lib Do mp w r st))) name)))"
    if "c \<in> set (newCalls st (snd (ServeHTTP_mirrors lib Do mp w r st)))" for c
  proof -
    from ServeHTTP_mirrors_requests [OF that] obtain url req where
      q: "fst c = forwardHeaders r req" by blast
    have "\<forall>(name, vs)\<in>set (ResponseHeader resp). \<forall>v\<in>set vs.
                 v \<in> set (Header_Values (wHeader (fst (ServeHTTP_mirrors lib Do mp w r st))) name)"
      if h: "snd c = Inr resp
             \<and> (StatusCode resp \<noteq> StatusNotFound
                \<or> c = hd (newCalls st (snd (ServeHTTP_mirrors lib Do mp w r st)))
                  \<and> (\<forall>d\<in>set (newCalls st (snd (ServeHTTP_mirrors lib Do mp w r st))).
                        notFoundOrFailed (snd d)))" for resp
    proof -
      from h have "wHeader (fst (ServeHTTP_mirrors lib Do mp w r st))
                     = wHeader (writeResponse w resp)"
        unfolding writeResponse_header
        using ServeHTTP_mirrors_response [OF \<open>c \<in> set (newCalls st (snd (ServeHTTP_mirrors lib Do mp w r st)))\<close>, of resp]
        by blast
      then show ?thesis using b [of resp] by simp
    qed
    with a [of req] show ?thesis unfolding q by blast
  qed
  from 1 2 show ?thesis by blast
qed

theorem headers_forwarded_witness:
  "map (\<lambda>c. snd c)
     (newCalls emptyNet
        (snd (ServeHTTP exampleLib exampleTransport exampleProxy emptyWriter
                (exampleRequest ''/some/path'' ''key=value'' (Some ''payload'')) emptyNet)))
     = [Inr exampleDefault200]
   \<and> ''test-agent'' \<in> set (Header_Values (RequestHeader (fst (hd (newCalls emptyNet
        (snd (ServeHTTP exampleLib exampleTransport exampleProxy emptyWriter
                (exampleRequest ''/some/path'' ''key=value'' (Some ''payload'')) emptyNet)))))) ''User-Agent'')
   \<and> ''b'' \<in> set (Header_Values (RequestHeader (fst (hd (newCalls emptyNet
        (snd (ServeHTTP exampleLib exampleTransport exampleProxy emptyWriter
                (exampleRequest ''/some/path'' ''key=value'' (Some ''payload'')) emptyNet)))))) ''X-Custom'')
   \<and> Header_Values (RequestHeader (fst (hd (newCalls emptyNet
        (snd (ServeHTTP exampleLib exampleTransport exampleProxy emptyWriter
                (exampleRequest ''/some/path'' ''key=value'' (Some ''payload'')) emptyNet)))))) ''X-Forwarded-For''
       = [''192.0.2.1:1234'']
   \<and> ''test-value'' \<in> set (Header_Values (wHeader (fst
        (ServeHTTP exampleLib exampleTransport exampleProxy emptyWriter
                (exampleRequest ''/some/path'' ''key=value'' (Some ''payload'')) emptyNet))) ''X-Test-Header'')
   \<and> map (\<lambda>c. snd c)
         (newCalls emptyNet
            (snd (ServeHTTP_mirrors exampleLib exampleTransport exampleMirrorProxy emptyWriter
                    exampleProxyRequest emptyNet)))
       = [Inr examplePrimary404, Inl ''dial tcp: lookup failed: no such host'',
          Inr exampleMirror404, Inr exampleMirror200]
   \<and> map (\<lambda>c. ''test-agent'' \<in> set (Header_Values (RequestHeader (fst c)) ''User-Agent''))
         (newCalls emptyNet
            (snd (ServeHTTP_mirrors exampleLib exampleTransport exampleMirrorProxy emptyWriter
                    exampleProxyRequest emptyNet)))
       = [True, True, True, True]
   \<and> map (\<lambda>c. Header_Values (RequestHeader (fst c)) ''X-Forwarded-For'')
         (newCalls emptyNet
            (snd (ServeHTTP_mirrors exampleLib exampleTransport exampleMirrorProxy emptyWriter
                    exampleProxyRequest emptyNet)))
       = [[''192.0.2.1:1234''], [''192.0.2.1:1234''], [''192.0.2.1:1234''], [''192.0.2.1:1234'']]
   \<and> ''mirror2'' \<in> set (Header_Values (wHeader (fst
        (ServeHTTP_mirrors exampleLib exampleTransport exampleMirrorProxy emptyWriter
           exampleProxyRequest emptyNet))) ''X-Served-By'')
   \<and> map (\<lambda>c. snd c)
         (newCalls emptyNet
            (snd (ServeHTTP_mirrors exampleLib exampleTransport exampleSingleMirror emptyWriter
                    exampleProxyRequest emptyNet)))
       = [Inr examplePrimary404, Inr exampleMirror404]
   \<and> ''primary'' \<in> set (Header_Values (wHeader (fst
        (ServeHTTP_mirrors exampleLib exampleTransport exampleSingleMirror emptyWriter
           exampleProxyRequest emptyNet))) ''X-Served-By'')"
proof -
  let ?r = "exampleRequest ''/some/path'' ''key=value'' (Some ''payload'')"
  let ?run = "ServeHTTP exampleLib exampleTransport exampleProxy emptyWriter ?r emptyNet"
  let ?new = "newCalls emptyNet (snd ?run)"
  have s: "map (\<lambda>c. snd c) ?new = [Inr exampleDefault200]" by (rule example_serve_calls)
  then have ne: "?new \<noteq> []" by auto
  then have c0: "hd ?new \<in> set ?new" by simp
  from s ne have r0: "snd (hd ?new) = Inr exampleDefault200" by (cases ?new) auto
  have hr: "(''User-Agent'', [''test-agent'']) \<in> set (RequestHeader ?r)"
    "(''X-Custom'', [''a'', ''b'']) \<in> set (RequestHeader ?r)"
    "RemoteAddr ?r = ''192.0.2.1:1234''"
    by (simp_all add: exampleRequest_def)
  have hs: "(''X-Test-Header'', [''test-value'']) \<in> set (ResponseHeader exampleDefault200)"
    by (simp add: exampleDefault200_def)
  have k: "CanonicalMIMEHeaderKey ''User-Agent'' \<noteq> ''X-Forwarded-For''"
    "CanonicalMIMEHeaderKey ''X-Custom'' \<noteq> ''X-Forwarded-For''"
    by (simp_all add: example_canonical)
  from headers_forwarded [of emptyNet exampleLib exampleTransport exampleProxy emptyWriter ?r] c0
  have f: "(\<forall>(name, vs)\<in>set (RequestHeader ?r). \<forall>v\<in>set vs.
          CanonicalMIMEHeaderKey name \<noteq> ''X-Forwarded-For'' \<or> RemoteAddr ?r = []
          \<longrightarrow> v \<in> set (Header_Values (RequestHeader (fst (hd ?new))) name))"
    and x: "RemoteAddr ?r \<noteq> []
          \<longrightarrow> Header_Values (RequestHeader (fst (hd ?new))) ''X-Forwarded-For'' = [RemoteAddr ?r]"
    and g: "\<forall>resp. snd (hd ?new) = Inr resp
          \<longrightarrow> (\<forall>(name, vs)\<in>set (ResponseHeader resp). \<forall>v\<in>set vs.
                 v \<in> set (Header_Values (wHeader (fst ?run)) name))"
    by blast+
  from f hr(1) k(1) have 1: "''test-agent'' \<in> set (Header_Values (RequestHeader (fst (hd ?new))) ''User-Agent'')"
    by fastforce
  from f hr(2) k(2) have 2: "''b'' \<in> set (Header_Values (RequestHeader (fst (hd ?new))) ''X-Custom'')"
    by fastforce
  from x hr(3) have 3: "Header_Values (RequestHeader (fst (hd ?new))) ''X-Forwarded-For'' = [''192.0.2.1:1234'']"
    by simp
  from g r0 hs have 4: "''test-value'' \<in> set (Header_Values (wHeader (fst ?run)) ''X-Test-Header'')"
    by fastforce
  let ?q = "exampleProxyRequest"
  let ?runM = "ServeHTTP_mirrors exampleLib exampleTransport exampleMirrorProxy emptyWriter ?q emptyNet"
  let ?newM = "newCalls emptyNet (snd ?runM)"
  have sM: "map (\<lambda>c. snd c) ?newM
              = [Inr examplePrimary404, Inl ''dial tcp: lookup failed: no such host'',
                 Inr exampleMirror404, Inr exampleMirror200]"
    by (simp add: example_defs)
  have len: "length ?newM = 4" by (rule example_mirror_calls)
  then have neM: "?newM \<noteq> []" by auto
  then have lM: "last ?newM \<in> set ?newM" by simp
  have "snd (last ?newM) = last (map (\<lambda>c. snd c) ?newM)" using neM by (simp add: last_map)
  then have rM: "snd (last ?newM) = Inr exampleMirror200" unfolding sM by simp
  have hq: "(''User-Agent'', [''test-agent'']) \<in> set (RequestHeader ?q)"
    "RemoteAddr ?q = ''192.0.2.1:1234''"
    by (simp_all add: exampleProxyRequest_def)
  have hm: "(''X-Served-By'', [''mirror2'']) \<in> set (ResponseHeader exampleMirror200)"
    "StatusCode exampleMirror200 \<noteq> StatusNotFound"
    by (simp_all add: exampleMirror200_def StatusNotFound_def)
  note t = headers_forwarded [of emptyNet exampleLib exampleTransport _ emptyWriter ?q exampleMirrorProxy,
                              THEN conjunct2]
  have "\<forall>c\<in>set ?newM. (''test-agent'' \<in> set (Header_Values (RequestHeader (fst c)) ''User-Agent'')) = True"
    using t hq(1) k(1) by fastforce
  then have 5: "map (\<lambda>c. ''test-agent'' \<in> set (Header_Values (RequestHeader (fst c)) ''User-Agent'')) ?newM
                  = [True, True, True, True]"
    using map_constant [of ?newM "\<lambda>c. ''test-agent'' \<in> set (Header_Values (RequestHeader (fst c)) ''User-Agent'')" True]
    unfolding len by (simp add: numeral_eq_Suc)
  have "\<forall>c\<in>set ?newM. Header_Values (RequestHeader (fst c)) ''X-Forwarded-For'' = [''192.0.2.1:1234'']"
    using t hq(2) by fastforce
  then have 6: "map (\<lambda>c. Header_Values (RequestHeader (fst c)) ''X-Forwarded-For'') ?newM
                  = [[''192.0.2.1:1234''], [''192.0.2.1:1234''], [''192.0.2.1:1234''], [''192.0.2.1:1234'']]"
    using map_constant [of ?newM "\<lambda>c. Header_Values (RequestHeader (fst c)) ''X-Forwarded-For''"
                           "[''192.0.2.1:1234'']"]
    unfolding len by (simp add: numeral_eq_Suc)
  from t lM have "\<forall>resp. snd (last ?newM) = Inr resp
             \<and> (StatusCode resp \<noteq> StatusNotFound
                \<or> last ?newM = hd ?newM \<and> (\<forall>d\<in>set ?newM. notFoundOrFailed (snd d)))
          \<longrightarrow> (\<forall>(name, vs)\<in>set (ResponseHeader resp). \<forall>v\<in>set vs.
                 v \<in> set (Header_Values (wHeader (fst ?runM)) name))"
    by blast
  with rM hm have 7: "''mirror2'' \<in> set (Header_Values (wHeader (fst ?runM)) ''X-Served-By'')"
    by fastforce
  let ?runS = "ServeHTTP_mirrors exampleLib exampleTransport exampleSingleMirror emptyWriter ?q emptyNet"
  let ?newS = "newCalls emptyNet (snd ?runS)"
  have sS: "map (\<lambda>c. snd c) ?newS = [Inr examplePrimary404, Inr exampleMirror404]"
    by (simp add: example_defs)
  then have neS: "?newS \<noteq> []" by auto
  then have hS: "hd ?newS \<in> set ?newS" by simp
  have "snd (hd ?newS) = hd (map (\<lambda>c. snd c) ?newS)" using neS by (simp add: hd_map)
  then have rS: "snd (hd ?newS) = Inr examplePrimary404" unfolding sS by simp
  have "list_all notFoundOrFailed [Inr examplePrimary404, Inr exampleMirror404]"
    by (simp add: notFoundOrFailed_def examplePrimary404_def exampleMirror404_def StatusNotFound_def)
  with sS have aS: "\<forall>d\<in>set ?newS. notFoundOrFailed (snd d)" by (rule all_of_map)
  have hp: "(''X-Served-By'', [''primary'']) \<in> set (ResponseHeader examplePrimary404)"
    by (simp add: examplePrimary404_def)
  note u = headers_forwarded [of emptyNet exampleLib exampleTransport _ emptyWriter ?q exampleSingleMirror,
                              THEN conjunct2]
  from u hS have "\<forall>resp. snd (hd ?newS) = Inr resp
             \<and> (StatusCode resp \<noteq> StatusNotFound
                \<or> hd ?newS = hd ?newS \<and> (\<forall>d\<in>set ?newS. notFoundOrFailed (snd d)))
          \<longrightarrow> (\<forall>(name, vs)\<in>set (ResponseHeader resp). \<forall>v\<in>set vs.
                 v \<in> set (Header_Values (wHeader (fst ?runS)) name))"
    by blast
  with rS aS hp have 8: "''primary'' \<in> set (Header_Values (wHeader (fst ?runS)) ''X-Served-By'')"
    by fastforce
  from s 1 2 3 4 sM 5 6 7 sS 8 show ?thesis by blast
qed

end
